theory Spec2Isabelle
  imports Main "HOL-Library.Sublist"
begin

text \<open>
  The chunking core of the documentation processor: \<open>RagProcessor\<close> in
  \<open>rag_processor.py\<close> (grouping of sections, splitting of oversized groups, overlap,
  validation, numbering) and the paragraph splitter of its predecessor \<open>GK8RagProcessor\<close>
  in \<open>gk8_rag_processor.py\<close>. Line numbers refer to \<open>rag_processor.py\<close> unless the other
  file is named. The methods' \<open>metadata\<close> argument is passed through to the chunks and never
  read by the chunking code; it is left out.
\<close>

section \<open>Python strings\<close>

text \<open>
  A Python \<open>str\<close> is modelled as a \<open>string\<close>, one \<open>char\<close> per code point below 256.
  \<open>x in s\<close> on strings is \<^const>\<open>sublist\<close>, \<open>s.startswith(x)\<close> is \<^const>\<open>prefix\<close>.
  The characters \<open>str.strip()\<close> and \<open>str.split()\<close> treat as whitespace, in that range:
\<close>

definition whitespace :: "char list" where
  "whitespace = [CHR 0x09, CHR 0x0A, CHR 0x0B, CHR 0x0C, CHR 0x0D, CHR 0x1C, CHR 0x1D,
     CHR 0x1E, CHR 0x1F, CHR 0x20, CHR 0x85, CHR 0xA0]"

definition is_space :: "char \<Rightarrow> bool" where
  "is_space c \<longleftrightarrow> c \<in> set whitespace"

text \<open>\<open>s.strip()\<close>\<close>

definition strip :: "string \<Rightarrow> string" where
  "strip s = rev (dropWhile is_space (rev (dropWhile is_space s)))"

text \<open>\<open>s.split()\<close>: the maximal runs of non-whitespace characters; \<open>w\<close> is the word being
  read, reversed.\<close>

fun split_ws_aux :: "string \<Rightarrow> string \<Rightarrow> string list" where
  "split_ws_aux w [] = (if w = [] then [] else [rev w])"
| "split_ws_aux w (c # cs) =
     (if is_space c then (if w = [] then split_ws_aux [] cs else rev w # split_ws_aux [] cs)
      else split_ws_aux (c # w) cs)"

definition split_ws :: "string \<Rightarrow> string list" where
  "split_ws s = split_ws_aux [] s"

text \<open>\<open>' '.join(ws)\<close>\<close>

fun join_sp :: "string list \<Rightarrow> string" where
  "join_sp [] = []"
| "join_sp [w] = w"
| "join_sp (w # v # ws) = w @ '' '' @ join_sp (v # ws)"

text \<open>The fenced-code marker, \<open>s.split('```')\<close> and \<open>s.count('```')\<close>: both scan from the
  left and take non-overlapping occurrences.\<close>

definition fence :: string where
  "fence = ''```''"

fun split_fence_aux :: "string \<Rightarrow> string \<Rightarrow> string list" where
  "split_fence_aux acc (a # b # c # cs) =
     (if a = CHR ''`'' \<and> b = CHR ''`'' \<and> c = CHR ''`'' then rev acc # split_fence_aux [] cs
      else split_fence_aux (a # acc) (b # c # cs))"
| "split_fence_aux acc cs = [rev acc @ cs]"

definition split_fence :: "string \<Rightarrow> string list" where
  "split_fence s = split_fence_aux [] s"

fun count_fence :: "string \<Rightarrow> nat" where
  "count_fence (a # b # c # cs) =
     (if a = CHR ''`'' \<and> b = CHR ''`'' \<and> c = CHR ''`'' then Suc (count_fence cs)
      else count_fence (b # c # cs))"
| "count_fence cs = 0"

text \<open>\<open>s.split('\n\n')\<close>, used by the paragraph splitter of \<open>gk8_rag_processor.py\<close>.\<close>

fun split_para_aux :: "string \<Rightarrow> string \<Rightarrow> string list" where
  "split_para_aux acc (a # b # cs) =
     (if a = CHR 0x0A \<and> b = CHR 0x0A then rev acc # split_para_aux [] cs
      else split_para_aux (a # acc) (b # cs))"
| "split_para_aux acc cs = [rev acc @ cs]"

definition split_para :: "string \<Rightarrow> string list" where
  "split_para s = split_para_aux [] s"

section \<open>Data model\<close>

text \<open>A section is the dict built by \<open>extract_sections\<close> (its \<open>element\<close> key, the parsed
  markup, is not read by the chunking code).\<close>

record doc_section =
  level :: int
  title :: string
  content :: string

text \<open>A chunk candidate: the dict with keys \<open>content\<close>, \<open>sections\<close>, \<open>token_count\<close>.\<close>

record chunk =
  chunk_content :: string
  sections :: "string list"
  token_count :: int

text \<open>A chunk after \<open>create_chunks\<close> has attached \<open>metadata\<close>. The other metadata keys
  (page URL, title, breadcrumb, links) are copied from the caller unchanged and are not
  read by the chunking code.\<close>

record final_chunk = chunk +
  chunk_index :: nat
  total_chunks :: nat
  section_titles :: "string list"

text \<open>The four size attributes of a processor instance.\<close>

record config =
  CHUNK_SIZE_MIN :: int
  CHUNK_SIZE_TARGET :: int
  CHUNK_SIZE_MAX :: int
  CHUNK_OVERLAP :: int

section \<open>Construction (\<open>__init__\<close>)\<close>

text \<open>
  \<open>RagProcessor.__init__(jwt_token, output_dir, chunk_size_target=800, debug)\<close> assigns the
  four attributes from literals; it does not read \<open>chunk_size_target\<close> and has no
  \<open>raise\<close>. \<open>GK8RagProcessor.__init__\<close> takes \<open>CHUNK_SIZE_TARGET\<close> from its argument and the
  other three from literals; it has no \<open>raise\<close> either. The result type has a branch for
  a configuration error, which neither constructor takes.
\<close>

datatype config_error = ConfigurationError

definition RagProcessor_init :: "int \<Rightarrow> config_error + config" where
  "RagProcessor_init chunk_size_target =
     Inr \<lparr>CHUNK_SIZE_MIN = 500, CHUNK_SIZE_TARGET = 800, CHUNK_SIZE_MAX = 1200,
          CHUNK_OVERLAP = 150\<rparr>"

definition GK8RagProcessor_init :: "int \<Rightarrow> config_error + config" where
  "GK8RagProcessor_init chunk_size_target =
     Inr \<lparr>CHUNK_SIZE_MIN = 300, CHUNK_SIZE_TARGET = chunk_size_target, CHUNK_SIZE_MAX = 1500,
          CHUNK_OVERLAP = 100\<rparr>"

definition default_config :: config where
  "default_config = \<lparr>CHUNK_SIZE_MIN = 500, CHUNK_SIZE_TARGET = 800, CHUNK_SIZE_MAX = 1200,
     CHUNK_OVERLAP = 150\<rparr>"

section \<open>Token estimate\<close>

text \<open>
  \<open>estimate_tokens\<close> of \<open>rag_processor.py\<close> uses the tiktoken encoder when that library
  is installed and \<open>int(len(text) / 3.75)\<close> otherwise. The chunking functions below take
  the estimator as the parameter \<open>est\<close>. The fallback is \<open>estimate_tokens\<close>: dividing by
  3.75 and truncating is \<open>4 * len div 15\<close> on a length. \<open>gk8_rag_processor.py\<close> uses
  \<open>len(text) // 4\<close>.
\<close>

definition estimate_tokens :: "string \<Rightarrow> int" where
  "estimate_tokens text = (4 * int (length text)) div 15"

definition gk8_estimate_tokens :: "string \<Rightarrow> int" where
  "gk8_estimate_tokens text = int (length text) div 4"

section \<open>Overlap (\<open>_get_overlap_content\<close>)\<close>

text \<open>\<open>words[-n:]\<close> for an integer \<open>n\<close>: the last \<open>n\<close> elements when \<open>n > 0\<close> (all of them
  when there are fewer), the whole list when \<open>n = 0\<close>, and \<open>words[k:]\<close> when \<open>n = -k < 0\<close>.\<close>

definition slice_from_neg :: "int \<Rightarrow> 'a list \<Rightarrow> 'a list" where
  "slice_from_neg n ws =
     (if n > 0 then drop (nat (int (length ws) - n)) ws else drop (nat (- n)) ws)"

definition get_overlap_content :: "config \<Rightarrow> string \<Rightarrow> string" where
  "get_overlap_content cfg text =
     (let words = split_ws text;
          overlap_words = CHUNK_OVERLAP cfg * 4 div 5
      in if int (length words) > overlap_words then join_sp (slice_from_neg overlap_words words)
         else text)"

section \<open>Grouping (\<open>_is_major_boundary\<close>, \<open>_group_related_sections\<close>)\<close>

definition is_major_boundary :: "doc_section \<Rightarrow> doc_section option \<Rightarrow> bool" where
  "is_major_boundary current_section previous_section =
     (if level current_section \<le> 2 then True
      else case previous_section of
             Some p \<Rightarrow> sublist fence (content p) \<noteq> sublist fence (content current_section)
           | None \<Rightarrow> False)"

text \<open>The loop of \<open>_group_related_sections\<close>: \<open>prev\<close> is \<open>sections[i-1]\<close> (\<open>None\<close> at
  \<open>i = 0\<close>), \<open>groups\<close> and \<open>current_group\<close> are the two local lists.\<close>

fun group_loop ::
  "doc_section option \<Rightarrow> doc_section list \<Rightarrow> doc_section list list \<Rightarrow> doc_section list \<Rightarrow> doc_section list list"
where
  "group_loop prev [] groups current_group =
     (if current_group \<noteq> [] then groups @ [current_group] else groups)"
| "group_loop prev (s # ss) groups current_group =
     (if is_major_boundary s prev
      then group_loop (Some s) ss
             (if current_group \<noteq> [] then groups @ [current_group] else groups) [s]
      else group_loop (Some s) ss groups (current_group @ [s]))"

definition group_related_sections :: "doc_section list \<Rightarrow> doc_section list list" where
  "group_related_sections secs = group_loop None secs [] []"

section \<open>Building chunks\<close>

text \<open>The text a section contributes when appended to a buffer: with a \<open># title\<close> header
  unless the title is the sentinel \<open>Content\<close>.\<close>

definition render_section :: "doc_section \<Rightarrow> string" where
  "render_section s =
     (if title s \<noteq> ''Content''
      then [CHR 0x0A, CHR 0x0A] @ ''# '' @ title s @ [CHR 0x0A, CHR 0x0A] @ content s
      else [CHR 0x0A, CHR 0x0A] @ content s)"

definition create_chunk_from_sections :: "(string \<Rightarrow> int) \<Rightarrow> doc_section list \<Rightarrow> chunk" where
  "create_chunk_from_sections est secs =
     (let text = concat (map render_section secs)
      in \<lparr>chunk_content = strip text, sections = map title secs, token_count = est text\<rparr>)"

text \<open>The local variables of \<open>_split_large_group\<close>.\<close>

record split_state =
  chunks :: "chunk list"
  current_chunk_content :: string
  current_chunk_sections :: "string list"
  current_tokens :: int

definition init_state :: split_state where
  "init_state = \<lparr>chunks = [], current_chunk_content = [], current_chunk_sections = [],
     current_tokens = 0\<rparr>"

text \<open>The dict appended to \<open>chunks\<close> at every flush.\<close>

definition buffer_chunk :: "split_state \<Rightarrow> chunk" where
  "buffer_chunk st = \<lparr>chunk_content = strip (current_chunk_content st),
     sections = current_chunk_sections st, token_count = current_tokens st\<rparr>"

text \<open>One fenced block \<open>section_parts[i]\<close>, \<open>i\<close> odd (lines 736 to 754).\<close>

definition code_block_step ::
  "config \<Rightarrow> (string \<Rightarrow> int) \<Rightarrow> string \<Rightarrow> string \<Rightarrow> split_state \<Rightarrow> split_state" where
  "code_block_step cfg est ttl part st =
     (let code_block = fence @ part @ fence;
          code_tokens = est code_block
      in if current_tokens st + code_tokens > CHUNK_SIZE_MAX cfg
         then
           (let st1 = (if strip (current_chunk_content st) \<noteq> []
                       then st\<lparr>chunks := chunks st @ [buffer_chunk st]\<rparr> else st);
                text = ''# '' @ ttl @ '' (continued)'' @ [CHR 0x0A, CHR 0x0A] @ code_block
            in st1\<lparr>current_chunk_content := text, current_chunk_sections := [ttl],
                   current_tokens := est text\<rparr>)
         else st\<lparr>current_chunk_content :=
                    current_chunk_content st @ [CHR 0x0A, CHR 0x0A] @ code_block,
                 current_tokens := current_tokens st + code_tokens\<rparr>)"

text \<open>The text \<open>section_parts[i + 1]\<close> after a fenced block (lines 757 to 762).\<close>

definition text_after_step ::
  "config \<Rightarrow> (string \<Rightarrow> int) \<Rightarrow> string \<Rightarrow> split_state \<Rightarrow> split_state" where
  "text_after_step cfg est text_after st =
     (let text_tokens = est text_after
      in if current_tokens st + text_tokens \<le> CHUNK_SIZE_MAX cfg
         then st\<lparr>current_chunk_content :=
                    current_chunk_content st @ [CHR 0x0A, CHR 0x0A] @ text_after,
                 current_tokens := current_tokens st + text_tokens\<rparr>
         else st)"

text \<open>The loop \<open>for i in range(1, len(section_parts), 2)\<close>, on \<open>section_parts[1:]\<close>.\<close>

fun process_code_blocks ::
  "config \<Rightarrow> (string \<Rightarrow> int) \<Rightarrow> string \<Rightarrow> string list \<Rightarrow> split_state \<Rightarrow> split_state" where
  "process_code_blocks cfg est ttl [] st = st"
| "process_code_blocks cfg est ttl [part] st = code_block_step cfg est ttl part st"
| "process_code_blocks cfg est ttl (part # text_after # rest) st =
     process_code_blocks cfg est ttl rest
       (text_after_step cfg est text_after (code_block_step cfg est ttl part st))"

text \<open>A section whose content holds a fence (lines 709 to 762): first the buffer is
  flushed if it is non-empty and has reached \<open>CHUNK_SIZE_MIN\<close>, and in every case replaced
  by the section's header and the text before the first fence (lines 711 to 731); then the
  blocks are processed.\<close>

definition seed_code_section ::
  "config \<Rightarrow> (string \<Rightarrow> int) \<Rightarrow> split_state \<Rightarrow> doc_section \<Rightarrow> split_state" where
  "seed_code_section cfg est st s =
     (let st1 = (if current_chunk_content st \<noteq> [] \<and> current_tokens st \<ge> CHUNK_SIZE_MIN cfg
                 then st\<lparr>chunks := chunks st @ [buffer_chunk st], current_chunk_content := [],
                        current_chunk_sections := [], current_tokens := 0\<rparr>
                 else st);
          section_parts = split_fence (content s);
          text_before = hd section_parts;
          text = (if title s \<noteq> ''Content''
                  then ''# '' @ title s @ [CHR 0x0A, CHR 0x0A] @ text_before
                  else text_before)
      in st1\<lparr>current_chunk_content := text, current_chunk_sections := [title s],
             current_tokens := est text\<rparr>)"

definition code_section_step ::
  "config \<Rightarrow> (string \<Rightarrow> int) \<Rightarrow> split_state \<Rightarrow> doc_section \<Rightarrow> split_state" where
  "code_section_step cfg est st s =
     process_code_blocks cfg est (title s) (tl (split_fence (content s)))
       (seed_code_section cfg est st s)"

text \<open>A section without a fence (lines 764 to 798).\<close>

definition append_section :: "(string \<Rightarrow> int) \<Rightarrow> split_state \<Rightarrow> doc_section \<Rightarrow> split_state" where
  "append_section est st s =
     st\<lparr>current_chunk_content := current_chunk_content st @ render_section s,
        current_chunk_sections := current_chunk_sections st @ [title s],
        current_tokens := current_tokens st + est (content s)\<rparr>"

definition text_section_step ::
  "config \<Rightarrow> (string \<Rightarrow> int) \<Rightarrow> split_state \<Rightarrow> doc_section \<Rightarrow> split_state" where
  "text_section_step cfg est st s =
     (let section_tokens = est (content s)
      in if current_tokens st + section_tokens > CHUNK_SIZE_TARGET cfg
         then
           (if current_tokens st \<ge> CHUNK_SIZE_MIN cfg
            then
              (let overlap_content = get_overlap_content cfg (current_chunk_content st);
                   text = overlap_content @ render_section s
               in st\<lparr>chunks := chunks st @ [buffer_chunk st],
                     current_chunk_content := text, current_chunk_sections := [title s],
                     current_tokens := est text\<rparr>)
            else append_section est st s)
         else append_section est st s)"

definition split_step ::
  "config \<Rightarrow> (string \<Rightarrow> int) \<Rightarrow> split_state \<Rightarrow> doc_section \<Rightarrow> split_state" where
  "split_step cfg est st s =
     (if sublist fence (content s) then code_section_step cfg est st s
      else text_section_step cfg est st s)"

definition split_large_group :: "config \<Rightarrow> (string \<Rightarrow> int) \<Rightarrow> doc_section list \<Rightarrow> chunk list" where
  "split_large_group cfg est grp =
     (let st = foldl (split_step cfg est) init_state grp
      in if strip (current_chunk_content st) \<noteq> [] then chunks st @ [buffer_chunk st]
         else chunks st)"

section \<open>Validation (\<open>_validate_chunk\<close>)\<close>

datatype reason =
    SingleChunk
  | ImportantContent
  | TooSmall int
  | TooLarge int
  | IncompleteCodeBlock
  | Orphaned string
  | Valid

definition orphaned_starts :: "string list" where
  "orphaned_starts = [''else:'', ''elif:'', ''}'', '']'', '')'', ''except:'', ''finally:'', ''catch'']"

definition validate_chunk :: "config \<Rightarrow> final_chunk \<Rightarrow> bool \<times> reason" where
  "validate_chunk cfg c =
     (let text = chunk_content c; tokens = token_count c
      in if tokens < CHUNK_SIZE_MIN cfg
         then (if total_chunks c = 1 then (True, SingleChunk)
               else if sublist fence text then (True, ImportantContent)
               else (False, TooSmall tokens))
         else if tokens > CHUNK_SIZE_MAX cfg then (False, TooLarge tokens)
         else if count_fence text mod 2 \<noteq> 0 then (False, IncompleteCodeBlock)
         else (case find (\<lambda>orphan. prefix orphan (strip text)) orphaned_starts of
                 Some orphan \<Rightarrow> (False, Orphaned orphan)
               | None \<Rightarrow> (True, Valid)))"

section \<open>\<open>create_chunks\<close>\<close>

text \<open>The first loop of \<open>create_chunks\<close>: the candidates of one group, then of all groups.
  \<open>extract_sections\<close> works on parsed markup and is outside this development; its result,
  the list of sections, is the input here.\<close>

definition group_chunks :: "config \<Rightarrow> (string \<Rightarrow> int) \<Rightarrow> doc_section list \<Rightarrow> chunk list" where
  "group_chunks cfg est grp =
     (let group_tokens = sum_list (map (\<lambda>s. est (content s)) grp)
      in if CHUNK_SIZE_MIN cfg \<le> group_tokens \<and> group_tokens \<le> CHUNK_SIZE_MAX cfg
         then [create_chunk_from_sections est grp]
         else if group_tokens > CHUNK_SIZE_MAX cfg then split_large_group cfg est grp
         else [create_chunk_from_sections est grp])"

definition build_chunks :: "config \<Rightarrow> (string \<Rightarrow> int) \<Rightarrow> doc_section list \<Rightarrow> chunk list" where
  "build_chunks cfg est secs =
     (if secs = [] then [] else concat (map (group_chunks cfg est) (group_related_sections secs)))"

text \<open>The second loop: provisional numbering, stripping and validation.\<close>

definition number_chunk :: "nat \<Rightarrow> nat \<times> chunk \<Rightarrow> final_chunk" where
  "number_chunk n ic =
     (case ic of (i, c) \<Rightarrow>
        \<lparr>chunk_content = strip (chunk_content c), sections = sections c,
         token_count = token_count c, chunk_index = i + 1, total_chunks = n,
         section_titles = sections c\<rparr>)"

definition validated_chunks :: "config \<Rightarrow> chunk list \<Rightarrow> final_chunk list" where
  "validated_chunks cfg cs =
     filter (\<lambda>c. fst (validate_chunk cfg c)) (map (number_chunk (length cs)) (enumerate 0 cs))"

text \<open>The third loop: the indices after validation.\<close>

definition reindex :: "final_chunk list \<Rightarrow> final_chunk list" where
  "reindex vs =
     map (\<lambda>(i, c). c\<lparr>chunk_index := i + 1, total_chunks := length vs\<rparr>) (enumerate 0 vs)"

definition create_chunks :: "config \<Rightarrow> (string \<Rightarrow> int) \<Rightarrow> doc_section list \<Rightarrow> final_chunk list" where
  "create_chunks cfg est secs = reindex (validated_chunks cfg (build_chunks cfg est secs))"

section \<open>The paragraph splitter of \<open>gk8_rag_processor.py\<close>\<close>

text \<open>
  \<open>GK8RagProcessor.create_chunks\<close> has no groups: it walks the sections, and a section
  whose own estimate exceeds \<open>CHUNK_SIZE_MAX\<close> is split at blank lines (lines 576 to 603).
  \<open>gk8_split_section\<close> is that branch: the chunks it appends for one such section. The
  state of its loop is the chunk list, \<open>temp_content\<close> and \<open>temp_tokens\<close>.
\<close>

definition gk8_para_step ::
  "config \<Rightarrow> (string \<Rightarrow> int) \<Rightarrow> string \<Rightarrow> chunk list \<times> string \<times> int \<Rightarrow> string
     \<Rightarrow> chunk list \<times> string \<times> int" where
  "gk8_para_step cfg est ttl st para =
     (case st of (cs, temp_content, temp_tokens) \<Rightarrow>
        (let para_tokens = est para
         in if temp_tokens + para_tokens > CHUNK_SIZE_TARGET cfg
            then
              (let cs1 = (if strip temp_content \<noteq> []
                          then cs @ [\<lparr>chunk_content = strip temp_content, sections = [ttl],
                                      token_count = temp_tokens\<rparr>]
                          else cs);
                   text = ''# '' @ ttl @ [CHR 0x0A, CHR 0x0A] @ para @ [CHR 0x0A, CHR 0x0A]
               in (cs1, text, est text))
            else (cs, temp_content @ para @ [CHR 0x0A, CHR 0x0A], temp_tokens + para_tokens)))"

definition gk8_split_section :: "config \<Rightarrow> (string \<Rightarrow> int) \<Rightarrow> doc_section \<Rightarrow> chunk list" where
  "gk8_split_section cfg est s =
     (let paragraphs = split_para (content s);
          temp_content = (if title s \<noteq> ''Content'' then ''# '' @ title s @ [CHR 0x0A, CHR 0x0A]
                          else []);
          st = foldl (gk8_para_step cfg est (title s)) ([], temp_content, est temp_content)
                 paragraphs
      in case st of (cs, temp_content', temp_tokens') \<Rightarrow>
           if strip temp_content' \<noteq> []
           then cs @ [\<lparr>chunk_content = strip temp_content', sections = [title s],
                       token_count = temp_tokens'\<rparr>]
           else cs)"

definition gk8_config :: config where
  "gk8_config = \<lparr>CHUNK_SIZE_MIN = 300, CHUNK_SIZE_TARGET = 1000, CHUNK_SIZE_MAX = 1500,
     CHUNK_OVERLAP = 100\<rparr>"

section \<open>Notions used to state the properties\<close>

text \<open>The index, in the section sequence, at which each group starts, when the groups are
  laid end to end from index \<open>n\<close>.\<close>

fun starts_from :: "nat \<Rightarrow> 'a list list \<Rightarrow> nat list" where
  "starts_from n [] = []"
| "starts_from n (g # gs) = n # starts_from (n + length g) gs"

definition group_starts :: "'a list list \<Rightarrow> nat list" where
  "group_starts gs = starts_from 0 gs"

text \<open>The predecessor the grouping loop passes to \<open>_is_major_boundary\<close> at position \<open>j\<close> of
  \<open>ss\<close>, when \<open>prev\<close> precedes \<open>ss\<close>.\<close>

definition prev_of :: "'a option \<Rightarrow> 'a list \<Rightarrow> nat \<Rightarrow> 'a option" where
  "prev_of prev ss j = (if j = 0 then prev else Some (ss ! (j - 1)))"

text \<open>The fenced blocks the splitter forms from a section's content: \<open>'```' + part + '```'\<close>
  for every odd position of \<open>content.split('```')\<close> (the blocks \<open>_extract_code_blocks\<close>
  lists). \<open>code_blocks\<close> works on \<open>section_parts[1:]\<close>.\<close>

fun code_blocks :: "string list \<Rightarrow> string list" where
  "code_blocks [] = []"
| "code_blocks [part] = [fence @ part @ fence]"
| "code_blocks (part # text_after # rest) = (fence @ part @ fence) # code_blocks rest"

definition fenced_blocks :: "string \<Rightarrow> string list" where
  "fenced_blocks text = code_blocks (tl (split_fence text))"

text \<open>A piece of text is held by a splitter state when it lies, whole, in the running
  buffer or in a chunk already flushed.\<close>

definition held :: "string \<Rightarrow> split_state \<Rightarrow> bool" where
  "held b st \<longleftrightarrow> sublist b (current_chunk_content st) \<or>
     (\<exists>c\<in>set (chunks st). sublist b (chunk_content c))"

text \<open>A piece of text that starts and ends with a non-whitespace character.\<close>

definition solid :: "string \<Rightarrow> bool" where
  "solid b \<longleftrightarrow> b \<noteq> [] \<and> \<not> is_space (hd b) \<and> \<not> is_space (last b)"

text \<open>A word as \<open>str.split()\<close> returns them: not empty, without whitespace.\<close>

definition good_word :: "string \<Rightarrow> bool" where
  "good_word w \<longleftrightarrow> w \<noteq> [] \<and> (\<forall>c\<in>set w. \<not> is_space c)"

text \<open>The word count the specification gives for the overlap, \<open>round(CHUNK_OVERLAP * 0.8)\<close>:
  four fifths of an integer is never half-way between two integers, so rounding to the
  nearest integer is \<open>(8 * n + 5) div 10\<close>.\<close>

definition spec_overlap_words :: "int \<Rightarrow> int" where
  "spec_overlap_words n = (8 * n + 5) div 10"

section \<open>Documents used as concrete inputs\<close>

text \<open>
  A document without headings is one section of level 0 with the title \<open>Content\<close>, whose
  content is the text of the page. Sections under headings of one level do not contain
  each other, and their content starts with the heading's text. The limits in all of them
  are the shipped ones, \<open>default_config\<close>, and the estimator is the fallback.
\<close>

text \<open>A page without headings: a fenced block of 3750 characters followed by 3750
  characters of text.\<close>

definition text_after_fence_section :: doc_section where
  "text_after_fence_section = \<lparr>level = 0, title = ''Content'',
     content = ''```'' @ replicate 3750 (CHR ''a'') @ ''```'' @ replicate 3750 (CHR ''b'')\<rparr>"

text \<open>Two fenced sections under headings of level 3, which form one group: a short one,
  then one with a block of 5000 characters.\<close>

definition short_fenced_section :: doc_section where
  "short_fenced_section = \<lparr>level = 3, title = ''A'',
     content = ''A'' @ [CHR 0x0A] @ ''x```y```''\<rparr>"

definition long_fenced_section :: doc_section where
  "long_fenced_section = \<lparr>level = 3, title = ''B'',
     content = ''B'' @ [CHR 0x0A] @ ''```'' @ replicate 5000 (CHR ''a'') @ ''```''\<rparr>"

text \<open>A page without headings whose text is one fenced block of 5000 characters.\<close>

definition fenced_only_section :: doc_section where
  "fenced_only_section = \<lparr>level = 0, title = ''Content'',
     content = ''```'' @ replicate 5000 (CHR ''a'') @ ''```''\<rparr>"

text \<open>A page without headings: two paragraphs of 3100 characters each, without a fence.\<close>

definition two_paragraph_text :: string where
  "two_paragraph_text = replicate 3100 (CHR ''a'') @ [CHR 0x0A, CHR 0x0A] @
     replicate 3100 (CHR ''b'')"

definition two_paragraph_section :: doc_section where
  "two_paragraph_section = \<lparr>level = 0, title = ''Content'', content = two_paragraph_text\<rparr>"

text \<open>A page without headings whose text is one fenced block of 2000 characters.\<close>

definition fenced_valid_text :: string where
  "fenced_valid_text = ''```'' @ replicate 2000 (CHR ''a'') @ ''```''"

definition fenced_valid_section :: doc_section where
  "fenced_valid_section = \<lparr>level = 0, title = ''Content'', content = fenced_valid_text\<rparr>"

text \<open>Small inputs: a page whose text is a fence that is never closed, a page of thirteen
  characters, three sections under headings of level 3, a configuration with
  \<open>CHUNK_OVERLAP = 2\<close>, and a list of two candidate chunks.\<close>

definition unclosed_fence_section :: doc_section where
  "unclosed_fence_section = \<lparr>level = 0, title = ''Content'', content = ''```x''\<rparr>"

definition thirteen_char_section :: doc_section where
  "thirteen_char_section = \<lparr>level = 0, title = ''Content'', content = ''abcdefghijklm''\<rparr>"

definition three_sections :: "doc_section list" where
  "three_sections = [\<lparr>level = 3, title = ''Intro'', content = ''Intro abc''\<rparr>,
                     \<lparr>level = 3, title = ''Detail'', content = ''Detail def''\<rparr>,
                     \<lparr>level = 3, title = ''Code'', content = ''Code ```x```''\<rparr>]"

text \<open>Two small sections under headings of level 2, which form two groups: one without a
  fence, one with a fenced block; and the texts of their chunks.\<close>

definition two_small_sections :: "doc_section list" where
  "two_small_sections =
     [\<lparr>level = 2, title = ''A'', content = ''A'' @ [CHR 0x0A] @ ''abc''\<rparr>,
      \<lparr>level = 2, title = ''B'', content = ''B'' @ [CHR 0x0A] @ ''```x```''\<rparr>]"

definition small_plain_text :: string where
  "small_plain_text = ''# A'' @ [CHR 0x0A, CHR 0x0A] @ ''A'' @ [CHR 0x0A] @ ''abc''"

definition small_fenced_text :: string where
  "small_fenced_text = ''# B'' @ [CHR 0x0A, CHR 0x0A] @ ''B'' @ [CHR 0x0A] @ ''```x```''"

definition overlap_two_config :: config where
  "overlap_two_config = \<lparr>CHUNK_SIZE_MIN = 500, CHUNK_SIZE_TARGET = 800, CHUNK_SIZE_MAX = 1200,
     CHUNK_OVERLAP = 2\<rparr>"

definition two_candidates :: "chunk list" where
  "two_candidates = [\<lparr>chunk_content = ''aaa'', sections = [''A''], token_count = 600\<rparr>,
                     \<lparr>chunk_content = ''bbb'', sections = [''B''], token_count = 10\<rparr>]"

text \<open>Texts and buffers that the splitters produce on the documents above.\<close>

definition text_after_fence_text :: string where
  "text_after_fence_text = ''```'' @ replicate 3750 (CHR ''a'') @ ''```''"

definition continued_text :: string where
  "continued_text = ''# B (continued)'' @ [CHR 0x0A, CHR 0x0A] @ ''```'' @
     replicate 5000 (CHR ''a'') @ ''```''"

definition fenced_only_text :: string where
  "fenced_only_text = ''# Content (continued)'' @ [CHR 0x0A, CHR 0x0A] @ ''```'' @
     replicate 5000 (CHR ''a'') @ ''```''"

definition gk8_first_text :: string where
  "gk8_first_text = replicate 3100 (CHR ''a'')"

definition gk8_second_text :: string where
  "gk8_second_text = ''# Content'' @ [CHR 0x0A, CHR 0x0A] @ replicate 3100 (CHR ''b'')"

definition short_buffer :: split_state where
  "short_buffer = \<lparr>chunks = [],
     current_chunk_content = ''# A'' @ [CHR 0x0A, CHR 0x0A] @ ''A'' @ [CHR 0x0A] @ ''x'' @
       [CHR 0x0A, CHR 0x0A] @ ''```y```'' @ [CHR 0x0A, CHR 0x0A],
     current_chunk_sections = [''A''], current_tokens = 3\<rparr>"

definition heading_chunk_text :: string where
  "heading_chunk_text = ''# B'' @ [CHR 0x0A, CHR 0x0A] @ ''B''"

section \<open>Facts about the string functions\<close>

lemma not_space_backtick: "\<not> is_space (CHR ''`'')"
  by (simp add: is_space_def whitespace_def)

lemma is_space_newline: "is_space (CHR 0x0A)"
  by (simp add: is_space_def whitespace_def)

lemma no_fence_if_no_backtick: "CHR ''`'' \<notin> set s \<Longrightarrow> \<not> sublist fence s"
proof
  assume a: "CHR ''`'' \<notin> set s" and b: "sublist fence s"
  from b have "set fence \<subseteq> set s" by (rule set_mono_sublist)
  with a show False by (simp add: fence_def)
qed

lemma split_fence_aux_plain:
  "CHR ''`'' \<notin> set s \<Longrightarrow> split_fence_aux acc s = [rev acc @ s]"
  by (induction acc s rule: split_fence_aux.induct) auto

lemma split_fence_aux_append:
  "CHR ''`'' \<notin> set s \<Longrightarrow>
   split_fence_aux acc (s @ CHR ''`'' # CHR ''`'' # CHR ''`'' # r) =
     (rev acc @ s) # split_fence_aux [] r"
proof (induction s arbitrary: acc)
  case Nil
  then show ?case by simp
next
  case (Cons a s)
  then have a: "a \<noteq> CHR ''`''" by auto
  show ?case using Cons a
    by (cases s; cases "tl s"; auto)
qed

lemma split_para_aux_plain:
  "CHR 0x0A \<notin> set s \<Longrightarrow> split_para_aux acc s = [rev acc @ s]"
  by (induction acc s rule: split_para_aux.induct) auto

lemma split_para_aux_append:
  "CHR 0x0A \<notin> set s \<Longrightarrow>
   split_para_aux acc (s @ CHR 0x0A # CHR 0x0A # r) = (rev acc @ s) # split_para_aux [] r"
proof (induction s arbitrary: acc)
  case Nil
  then show ?case by simp
next
  case (Cons a s)
  then have a: "a \<noteq> CHR 0x0A" by auto
  show ?case using Cons a
    by (cases s; auto)
qed

lemma strip_id:
  assumes "s \<noteq> []" "\<not> is_space (hd s)" "\<not> is_space (last s)"
  shows "strip s = s"
proof -
  from assms have 1: "dropWhile is_space s = s" by (cases s) auto
  from assms have "rev s \<noteq> []" "\<not> is_space (hd (rev s))" by (auto simp: hd_rev)
  then have 2: "dropWhile is_space (rev s) = rev s" by (cases "rev s") auto
  show ?thesis by (simp add: strip_def 1 2)
qed

lemma strip_Cons_space: "is_space c \<Longrightarrow> strip (c # s) = strip s"
  by (simp add: strip_def)

lemma strip_snoc_space:
  assumes c: "is_space c"
  shows "strip (s @ [c]) = strip s"
proof (cases "\<forall>x\<in>set s. is_space x")
  case True
  then have 1: "dropWhile is_space s = []" by (simp only: dropWhile_eq_Nil_conv)
  from True c have "\<forall>x\<in>set (s @ [c]). is_space x" by simp
  then have 2: "dropWhile is_space (s @ [c]) = []" by (simp only: dropWhile_eq_Nil_conv)
  show ?thesis by (simp only: strip_def 1 2)
next
  case False
  then have "dropWhile is_space (s @ [c]) = dropWhile is_space s @ [c]"
    by (auto simp: dropWhile_append)
  with c show ?thesis by (simp add: strip_def)
qed

lemma sublist_dropWhile_space:
  assumes "sublist b s" "b \<noteq> []" "\<not> is_space (hd b)"
  shows "sublist b (dropWhile is_space s)"
  using assms
proof (induction s)
  case Nil
  then show ?case by simp
next
  case (Cons a s)
  show ?case
  proof (cases "is_space a")
    case True
    with Cons.prems have "\<not> prefix b (a # s)" by (cases b) auto
    with Cons.prems have "sublist b s" by (simp add: sublist_Cons_right)
    with Cons True show ?thesis by simp
  next
    case False
    with Cons.prems show ?thesis by simp
  qed
qed

text \<open>Stripping cannot cut into a piece of text that starts and ends with a
  non-whitespace character.\<close>

lemma sublist_strip_iff:
  assumes "b \<noteq> []" "\<not> is_space (hd b)" "\<not> is_space (last b)"
  shows "sublist b (strip s) \<longleftrightarrow> sublist b s"
proof
  assume "sublist b (strip s)"
  then have "sublist (rev b) (dropWhile is_space (rev (dropWhile is_space s)))"
    by (simp add: strip_def sublist_rev_left)
  then have "sublist (rev b) (rev (dropWhile is_space s))"
    using sublist_dropWhile sublist_order.order_trans by blast
  then have "sublist b (dropWhile is_space s)" by simp
  then show "sublist b s"
    using sublist_dropWhile sublist_order.order_trans by blast
next
  assume "sublist b s"
  then have "sublist b (dropWhile is_space s)"
    using assms by (simp add: sublist_dropWhile_space)
  then have "sublist (rev b) (rev (dropWhile is_space s))" by simp
  then have "sublist (rev b) (dropWhile is_space (rev (dropWhile is_space s)))"
    using assms by (intro sublist_dropWhile_space) (auto simp: hd_rev)
  then show "sublist b (strip s)"
    by (simp add: strip_def sublist_rev_left)
qed

lemma sublist_fence_strip: "sublist fence (strip s) \<longleftrightarrow> sublist fence s"
  by (rule sublist_strip_iff) (simp_all add: fence_def not_space_backtick)

section \<open>The code on the concrete documents\<close>

lemma cfg_fields:
  "CHUNK_SIZE_MIN default_config = 500" "CHUNK_SIZE_TARGET default_config = 800"
  "CHUNK_SIZE_MAX default_config = 1200" "CHUNK_OVERLAP default_config = 150"
  by (simp_all add: default_config_def)

lemma group_single: "group_related_sections [s] = [[s]]"
  by (simp add: group_related_sections_def)

lemma build_single: "build_chunks cfg est [s] = group_chunks cfg est [s]"
  by (simp add: build_chunks_def group_single)

lemma strip_two_newlines: "strip (CHR 0x0A # CHR 0x0A # s) = strip s"
  by (simp add: strip_Cons_space is_space_newline)

subsection \<open>A fenced block followed by text\<close>

lemma taf_fields:
  "title text_after_fence_section = ''Content''"
  "content text_after_fence_section =
     ''```'' @ replicate 3750 (CHR ''a'') @ ''```'' @ replicate 3750 (CHR ''b'')"
  by (simp_all add: text_after_fence_section_def)

lemma taf_split:
  "split_fence (content text_after_fence_section) =
     [[], replicate 3750 (CHR ''a''), replicate 3750 (CHR ''b'')]"
  by (simp add: taf_fields split_fence_def split_fence_aux_append split_fence_aux_plain)

lemma taf_fence: "sublist fence (content text_after_fence_section)"
  by (simp add: taf_fields fence_def)

lemma taf_tokens: "estimate_tokens (content text_after_fence_section) = 2001"
  by (simp add: taf_fields estimate_tokens_def)

lemma taf_step:
  "split_step default_config estimate_tokens init_state text_after_fence_section =
     \<lparr>chunks = [], current_chunk_content = CHR 0x0A # CHR 0x0A # text_after_fence_text,
      current_chunk_sections = [''Content''], current_tokens = 1001\<rparr>"
  apply (simp add: split_step_def taf_fence code_section_step_def seed_code_section_def
      taf_split init_state_def)
  apply (simp add: taf_fields(1) code_block_step_def text_after_step_def estimate_tokens_def
      cfg_fields fence_def text_after_fence_text_def)
  done

lemma taf_strip: "strip text_after_fence_text = text_after_fence_text"
  by (rule strip_id) (simp_all add: is_space_def whitespace_def text_after_fence_text_def)

lemma taf_nonempty: "text_after_fence_text \<noteq> []"
  by (simp add: text_after_fence_text_def)

lemma taf_build:
  "build_chunks default_config estimate_tokens [text_after_fence_section] =
     [\<lparr>chunk_content = text_after_fence_text, sections = [''Content''], token_count = 1001\<rparr>]"
  by (simp add: build_single group_chunks_def taf_tokens cfg_fields split_large_group_def
      taf_step buffer_chunk_def strip_two_newlines taf_strip taf_nonempty Let_def)

lemma taf_lost: "\<not> sublist (replicate 3750 (CHR ''b'')) text_after_fence_text"
proof
  assume "sublist (replicate 3750 (CHR ''b'')) text_after_fence_text"
  then have "set (replicate 3750 (CHR ''b'')) \<subseteq> set text_after_fence_text"
    by (rule set_mono_sublist)
  then show False by (simp add: text_after_fence_text_def)
qed

subsection \<open>Two fenced sections in one group\<close>

lemma short_fields:
  "level short_fenced_section = 3" "title short_fenced_section = ''A''"
  "content short_fenced_section = ''A'' @ [CHR 0x0A] @ ''x```y```''"
  by (simp_all add: short_fenced_section_def)

lemma long_fields:
  "level long_fenced_section = 3" "title long_fenced_section = ''B''"
  "content long_fenced_section =
     ''B'' @ [CHR 0x0A] @ ''```'' @ replicate 5000 (CHR ''a'') @ ''```''"
  by (simp_all add: long_fenced_section_def)

lemma short_fence: "sublist fence (content short_fenced_section)"
  by (simp add: short_fields fence_def sublist_Cons_right)

lemma long_fence: "sublist fence (content long_fenced_section)"
  by (simp add: long_fields fence_def sublist_Cons_right)

lemma group_two_fenced:
  "group_related_sections [short_fenced_section, long_fenced_section] =
     [[short_fenced_section, long_fenced_section]]"
  by (simp add: group_related_sections_def is_major_boundary_def short_fields(1) long_fields(1)
      short_fence long_fence)

lemma short_step:
  "split_step default_config estimate_tokens init_state short_fenced_section = short_buffer"
  apply (simp add: split_step_def short_fence code_section_step_def seed_code_section_def)
  apply (simp add: short_fields split_fence_def fence_def init_state_def code_block_step_def
      text_after_step_def estimate_tokens_def cfg_fields short_buffer_def)
  done

lemma long_split:
  "split_fence (content long_fenced_section) =
     [''B'' @ [CHR 0x0A], replicate 5000 (CHR ''a''), []]"
proof -
  have "split_fence_aux [] ((''B'' @ [CHR 0x0A]) @ CHR ''`'' # CHR ''`'' # CHR ''`'' #
          (replicate 5000 (CHR ''a'') @ CHR ''`'' # CHR ''`'' # CHR ''`'' # [])) =
        (rev [] @ (''B'' @ [CHR 0x0A])) #
          split_fence_aux [] (replicate 5000 (CHR ''a'') @ CHR ''`'' # CHR ''`'' # CHR ''`'' # [])"
    by (rule split_fence_aux_append) simp
  moreover have "split_fence_aux [] (replicate 5000 (CHR ''a'') @ CHR ''`'' # CHR ''`'' #
          CHR ''`'' # []) = (rev [] @ replicate 5000 (CHR ''a'')) # split_fence_aux [] []"
    by (rule split_fence_aux_append) simp
  ultimately show ?thesis by (simp add: long_fields split_fence_def)
qed

lemma long_step:
  "split_step default_config estimate_tokens short_buffer long_fenced_section =
     \<lparr>chunks = [\<lparr>chunk_content = heading_chunk_text, sections = [''B''], token_count = 1\<rparr>],
      current_chunk_content = continued_text, current_chunk_sections = [''B''],
      current_tokens = 1339\<rparr>"
  apply (simp add: split_step_def long_fence code_section_step_def seed_code_section_def
      long_split)
  apply (simp add: long_fields(2) code_block_step_def text_after_step_def estimate_tokens_def
      short_buffer_def cfg_fields fence_def continued_text_def buffer_chunk_def strip_def
      is_space_def whitespace_def heading_chunk_text_def)
  done

lemma continued_strip: "strip continued_text = continued_text"
  by (rule strip_id) (simp_all add: is_space_def whitespace_def continued_text_def)

lemma continued_nonempty: "continued_text \<noteq> []"
  by (simp add: continued_text_def)

lemma two_fenced_tokens:
  "estimate_tokens (content short_fenced_section) = 2"
  "estimate_tokens (content long_fenced_section) = 1335"
  by (simp_all add: short_fields long_fields estimate_tokens_def)

lemma two_fenced_build:
  "build_chunks default_config estimate_tokens [short_fenced_section, long_fenced_section] =
     [\<lparr>chunk_content = heading_chunk_text, sections = [''B''], token_count = 1\<rparr>,
      \<lparr>chunk_content = continued_text, sections = [''B''], token_count = 1339\<rparr>]"
  by (simp add: build_chunks_def group_two_fenced group_chunks_def two_fenced_tokens cfg_fields
      split_large_group_def short_step long_step Let_def continued_strip continued_nonempty
      buffer_chunk_def)

lemma y_lost: "\<not> sublist ''y'' heading_chunk_text" "\<not> sublist ''y'' continued_text"
proof -
  show "\<not> sublist ''y'' heading_chunk_text"
    by (simp add: heading_chunk_text_def sublist_Cons_right)
  show "\<not> sublist ''y'' continued_text"
  proof
    assume "sublist ''y'' continued_text"
    then have "set ''y'' \<subseteq> set continued_text" by (rule set_mono_sublist)
    then show False by (simp add: continued_text_def)
  qed
qed

subsection \<open>A page that is one fenced block\<close>

lemma fenced_only_fields:
  "title fenced_only_section = ''Content''"
  "content fenced_only_section = ''```'' @ replicate 5000 (CHR ''a'') @ ''```''"
  by (simp_all add: fenced_only_section_def)

lemma fenced_only_split:
  "split_fence (content fenced_only_section) = [[], replicate 5000 (CHR ''a''), []]"
  by (simp add: fenced_only_fields split_fence_def split_fence_aux_append)

lemma fenced_only_fence: "sublist fence (content fenced_only_section)"
  by (simp add: fenced_only_fields fence_def)

lemma fenced_only_step:
  "split_step default_config estimate_tokens init_state fenced_only_section =
     \<lparr>chunks = [], current_chunk_content = fenced_only_text,
      current_chunk_sections = [''Content''], current_tokens = 1341\<rparr>"
  apply (simp add: split_step_def fenced_only_fence code_section_step_def seed_code_section_def
      fenced_only_split init_state_def)
  apply (simp add: fenced_only_fields(1) code_block_step_def text_after_step_def
      estimate_tokens_def cfg_fields fence_def fenced_only_text_def buffer_chunk_def strip_def)
  done

lemma fenced_only_strip: "strip fenced_only_text = fenced_only_text"
  by (rule strip_id) (simp_all add: is_space_def whitespace_def fenced_only_text_def)

lemma fenced_only_nonempty: "fenced_only_text \<noteq> []"
  by (simp add: fenced_only_text_def)

lemma fenced_only_tokens: "estimate_tokens (content fenced_only_section) = 1334"
  by (simp add: fenced_only_fields estimate_tokens_def)

lemma fenced_only_split_large:
  "split_large_group default_config estimate_tokens [fenced_only_section] =
     [\<lparr>chunk_content = fenced_only_text, sections = [''Content''], token_count = 1341\<rparr>]"
  by (simp add: split_large_group_def fenced_only_step Let_def fenced_only_strip
      fenced_only_nonempty buffer_chunk_def)

lemma fenced_only_build:
  "build_chunks default_config estimate_tokens [fenced_only_section] =
     [\<lparr>chunk_content = fenced_only_text, sections = [''Content''], token_count = 1341\<rparr>]"
  by (simp add: build_single group_chunks_def fenced_only_tokens cfg_fields
      fenced_only_split_large)

subsection \<open>Two long paragraphs\<close>

lemma two_paragraph_fields:
  "title two_paragraph_section = ''Content''"
  "content two_paragraph_section = two_paragraph_text"
  by (simp_all add: two_paragraph_section_def)

lemma two_paragraph_nofence: "\<not> sublist fence two_paragraph_text"
  by (rule no_fence_if_no_backtick) (simp add: two_paragraph_text_def)

lemma two_paragraph_tokens: "estimate_tokens two_paragraph_text = 1653"
  by (simp add: two_paragraph_text_def estimate_tokens_def)

lemma two_paragraph_step:
  "split_step default_config estimate_tokens init_state two_paragraph_section =
     \<lparr>chunks = [], current_chunk_content = CHR 0x0A # CHR 0x0A # two_paragraph_text,
      current_chunk_sections = [''Content''], current_tokens = 1653\<rparr>"
  by (simp add: split_step_def two_paragraph_nofence text_section_step_def
      two_paragraph_fields two_paragraph_tokens init_state_def cfg_fields append_section_def
      render_section_def)

lemma two_paragraph_strip: "strip two_paragraph_text = two_paragraph_text"
  by (rule strip_id) (simp_all add: is_space_def whitespace_def two_paragraph_text_def)

lemma two_paragraph_nonempty: "two_paragraph_text \<noteq> []"
  by (simp add: two_paragraph_text_def)

lemma two_paragraph_build:
  "build_chunks default_config estimate_tokens [two_paragraph_section] =
     [\<lparr>chunk_content = two_paragraph_text, sections = [''Content''], token_count = 1653\<rparr>]"
  by (simp add: build_single group_chunks_def two_paragraph_fields two_paragraph_tokens
      cfg_fields split_large_group_def two_paragraph_step Let_def strip_two_newlines
      two_paragraph_strip two_paragraph_nonempty buffer_chunk_def)

lemma two_paragraph_create:
  "create_chunks default_config estimate_tokens [two_paragraph_section] = []"
  by (simp add: create_chunks_def two_paragraph_build validated_chunks_def number_chunk_def
      validate_chunk_def reindex_def cfg_fields)

lemma two_paragraph_paras:
  "split_para two_paragraph_text = [replicate 3100 (CHR ''a''), replicate 3100 (CHR ''b'')]"
  by (simp add: two_paragraph_text_def split_para_def split_para_aux_append
      split_para_aux_plain)

lemma gk8_strip1: "strip (gk8_first_text @ [CHR 0x0A, CHR 0x0A]) = gk8_first_text"
proof -
  have "strip (gk8_first_text @ [CHR 0x0A, CHR 0x0A]) =
        strip ((gk8_first_text @ [CHR 0x0A]) @ [CHR 0x0A])"
    by simp
  also have "\<dots> = strip gk8_first_text"
    by (simp only: strip_snoc_space [OF is_space_newline])
  also have "\<dots> = gk8_first_text"
    by (rule strip_id) (simp_all add: is_space_def whitespace_def gk8_first_text_def)
  finally show ?thesis .
qed

lemma gk8_strip2: "strip (gk8_second_text @ [CHR 0x0A, CHR 0x0A]) = gk8_second_text"
proof -
  have "strip (gk8_second_text @ [CHR 0x0A, CHR 0x0A]) =
        strip ((gk8_second_text @ [CHR 0x0A]) @ [CHR 0x0A])"
    by simp
  also have "\<dots> = strip gk8_second_text"
    by (simp only: strip_snoc_space [OF is_space_newline])
  also have "\<dots> = gk8_second_text"
    by (rule strip_id) (simp_all add: is_space_def whitespace_def gk8_second_text_def)
  finally show ?thesis .
qed

lemma gk8_two_paragraph:
  "gk8_split_section gk8_config gk8_estimate_tokens two_paragraph_section =
     [\<lparr>chunk_content = gk8_first_text, sections = [''Content''], token_count = 775\<rparr>,
      \<lparr>chunk_content = gk8_second_text, sections = [''Content''], token_count = 778\<rparr>]"
proof -
  have a: "gk8_para_step gk8_config gk8_estimate_tokens ''Content'' ([], [], 0)
             (replicate 3100 (CHR ''a''))
           = ([], gk8_first_text @ [CHR 0x0A, CHR 0x0A], 775)"
    by (simp add: gk8_para_step_def gk8_config_def gk8_estimate_tokens_def gk8_first_text_def)
  have b: "gk8_para_step gk8_config gk8_estimate_tokens ''Content''
             ([], gk8_first_text @ [CHR 0x0A, CHR 0x0A], 775) (replicate 3100 (CHR ''b''))
           = ([\<lparr>chunk_content = gk8_first_text, sections = [''Content''], token_count = 775\<rparr>],
              gk8_second_text @ [CHR 0x0A, CHR 0x0A], 778)"
    apply (simp add: gk8_para_step_def gk8_config_def gk8_estimate_tokens_def gk8_strip1 Let_def)
    apply (simp add: gk8_first_text_def gk8_second_text_def)
    done
  have c: "gk8_estimate_tokens [] = 0"
    by (simp add: gk8_estimate_tokens_def)
  have ne: "gk8_second_text \<noteq> []" by (simp add: gk8_second_text_def)
  show ?thesis
    unfolding gk8_split_section_def two_paragraph_fields two_paragraph_paras
    using a b c by (simp add: gk8_strip2 ne)
qed

lemma gk8_two_paragraph_tokens: "gk8_estimate_tokens two_paragraph_text = 1550"
  by (simp add: gk8_estimate_tokens_def two_paragraph_text_def)

subsection \<open>Small documents\<close>

lemma thirteen_char_build:
  "build_chunks default_config estimate_tokens [thirteen_char_section] =
     [\<lparr>chunk_content = ''abcdefghijklm'', sections = [''Content''], token_count = 4\<rparr>]"
  by (simp add: build_single group_chunks_def thirteen_char_section_def estimate_tokens_def
      cfg_fields create_chunk_from_sections_def render_section_def strip_def is_space_def
      whitespace_def)

lemma thirteen_char_create:
  "create_chunks default_config estimate_tokens [thirteen_char_section] =
     [\<lparr>chunk_content = ''abcdefghijklm'', sections = [''Content''], token_count = 4,
       chunk_index = 1, total_chunks = 1, section_titles = [''Content'']\<rparr>]"
  by (simp add: create_chunks_def thirteen_char_build validated_chunks_def number_chunk_def
      validate_chunk_def reindex_def cfg_fields strip_def is_space_def whitespace_def)

lemma unclosed_fence_build:
  "build_chunks default_config estimate_tokens [unclosed_fence_section] =
     [\<lparr>chunk_content = ''```x'', sections = [''Content''], token_count = 1\<rparr>]"
  by (simp add: build_single group_chunks_def unclosed_fence_section_def estimate_tokens_def
      cfg_fields create_chunk_from_sections_def render_section_def strip_def is_space_def
      whitespace_def)

lemma unclosed_fence_create:
  "create_chunks default_config estimate_tokens [unclosed_fence_section] =
     [\<lparr>chunk_content = ''```x'', sections = [''Content''], token_count = 1,
       chunk_index = 1, total_chunks = 1, section_titles = [''Content'']\<rparr>]"
  by (simp add: create_chunks_def unclosed_fence_build validated_chunks_def number_chunk_def
      validate_chunk_def reindex_def cfg_fields strip_def is_space_def whitespace_def)

lemma two_small_build:
  "build_chunks default_config estimate_tokens two_small_sections =
     [\<lparr>chunk_content = small_plain_text, sections = [''A''], token_count = 3\<rparr>,
      \<lparr>chunk_content = small_fenced_text, sections = [''B''], token_count = 4\<rparr>]"
  by (simp add: build_chunks_def two_small_sections_def group_related_sections_def
      is_major_boundary_def group_chunks_def estimate_tokens_def cfg_fields
      create_chunk_from_sections_def render_section_def strip_def is_space_def whitespace_def
      small_plain_text_def small_fenced_text_def)

lemma small_texts_strip:
  "strip small_plain_text = small_plain_text" "strip small_fenced_text = small_fenced_text"
  by (simp_all add: strip_def is_space_def whitespace_def small_plain_text_def
      small_fenced_text_def)

lemma small_texts_fence:
  "\<not> sublist fence small_plain_text" "sublist fence small_fenced_text"
  by (simp_all add: fence_def small_plain_text_def small_fenced_text_def sublist_Cons_right)

section \<open>Facts about validation and numbering\<close>

lemma validate_small:
  "token_count c < CHUNK_SIZE_MIN cfg \<Longrightarrow>
   validate_chunk cfg c =
     (if total_chunks c = 1 then (True, SingleChunk)
      else if sublist fence (chunk_content c) then (True, ImportantContent)
      else (False, TooSmall (token_count c)))"
  by (simp add: validate_chunk_def)

lemma validate_large:
  "CHUNK_SIZE_MIN cfg \<le> CHUNK_SIZE_MAX cfg \<Longrightarrow> token_count c > CHUNK_SIZE_MAX cfg \<Longrightarrow>
   validate_chunk cfg c = (False, TooLarge (token_count c))"
  by (simp add: validate_chunk_def)

lemma number_chunk_in_validated:
  assumes "i < length cs"
  shows "number_chunk (length cs) (i, cs ! i) \<in> set (validated_chunks cfg cs) \<longleftrightarrow>
         fst (validate_chunk cfg (number_chunk (length cs) (i, cs ! i)))"
proof -
  have "(i, cs ! i) \<in> set (enumerate 0 cs)"
    using assms by (simp add: in_set_enumerate_eq)
  then show ?thesis by (auto simp: validated_chunks_def)
qed

lemma reindex_length: "length (reindex vs) = length vs"
  by (simp add: reindex_def)

lemma reindex_nth:
  "i < length vs \<Longrightarrow>
   reindex vs ! i = (vs ! i)\<lparr>chunk_index := i + 1, total_chunks := length vs\<rparr>"
  by (simp add: reindex_def nth_enumerate_eq)

text \<open>The validated chunks, with the provisional numbering written out.\<close>

lemma validated_chunks_alt:
  "validated_chunks cfg cs =
     filter (\<lambda>c. fst (validate_chunk cfg c))
       (map (\<lambda>(i, c). \<lparr>chunk_content = strip (chunk_content c), sections = sections c,
                         token_count = token_count c, chunk_index = i + 1,
                         total_chunks = length cs, section_titles = sections c\<rparr>)
          (enumerate 0 cs))"
proof -
  have "number_chunk (length cs) =
        (\<lambda>(i, c). \<lparr>chunk_content = strip (chunk_content c), sections = sections c,
                    token_count = token_count c, chunk_index = i + 1,
                    total_chunks = length cs, section_titles = sections c\<rparr>)"
    by (rule ext) (simp add: number_chunk_def)
  then show ?thesis by (simp only: validated_chunks_def)
qed

text \<open>Numbering and re-numbering do not touch the text of a chunk, apart from the
  stripping done with the first numbering.\<close>

lemma reindex_content: "map chunk_content (reindex vs) = map chunk_content vs"
  by (rule nth_equalityI) (simp_all add: reindex_def nth_enumerate_eq)

lemma numbered_content:
  "map chunk_content (map (number_chunk n) (enumerate 0 cs)) =
     map (\<lambda>c. strip (chunk_content c)) cs"
  by (rule nth_equalityI) (simp_all add: number_chunk_def nth_enumerate_eq)

lemma survivors_subseq:
  "subseq (map chunk_content (create_chunks cfg est secs))
     (map (\<lambda>c. strip (chunk_content c)) (build_chunks cfg est secs))"
proof -
  let ?cs = "build_chunks cfg est secs"
  have "subseq (validated_chunks cfg ?cs) (map (number_chunk (length ?cs)) (enumerate 0 ?cs))"
    unfolding validated_chunks_def by (rule subseq_filter_left)
  then have "subseq (map chunk_content (validated_chunks cfg ?cs))
      (map chunk_content (map (number_chunk (length ?cs)) (enumerate 0 ?cs)))"
    by (rule subseq_map)
  then show ?thesis
    by (simp only: create_chunks_def reindex_content numbered_content)
qed

section \<open>Properties\<close>

subsection \<open>Coverage\<close>

text \<open>
  C1 (coverage): every non-empty section's content should appear in some chunk built by
  grouping and splitting, before validation. The splitter does not do that. On the page
  without headings \<open>text_after_fence_section\<close> (a fenced block of 1001 estimated tokens
  followed by 1000 estimated tokens of text, under the shipped limits 500/800/1200 and the
  fallback estimator) \<open>_split_large_group\<close> appends the block, finds that the text after it
  does not fit within \<open>CHUNK_SIZE_MAX\<close>, and has no branch for that case: the only candidate
  chunk is the block, and the 3750 characters after the closing fence are in no chunk.
\<close>

theorem text_after_fence_lost:
  "build_chunks default_config estimate_tokens [text_after_fence_section] =
     [\<lparr>chunk_content = text_after_fence_text, sections = [''Content''], token_count = 1001\<rparr>] \<and>
   sublist (replicate 3750 (CHR ''b'')) (content text_after_fence_section) \<and>
   \<not> sublist (replicate 3750 (CHR ''b'')) text_after_fence_text"
proof -
  have "sublist (replicate 3750 (CHR ''b''))
          ((''```'' @ replicate 3750 (CHR ''a'') @ ''```'') @ replicate 3750 (CHR ''b''))"
    by (rule sublist_append_leftI)
  then have "sublist (replicate 3750 (CHR ''b'')) (content text_after_fence_section)"
    by (simp add: taf_fields)
  with taf_build taf_lost show ?thesis by simp
qed

text \<open>
  The second loss named by C1: two fenced sections in one group. The buffer left by the
  first holds 3 estimated tokens, below \<open>CHUNK_SIZE_MIN\<close>, so it is not flushed when the
  second fenced section arrives, and the assignment at lines 726 to 731 overwrites it. The
  first section's code \<open>y\<close> is in neither candidate chunk.
\<close>

lemma buffer_below_min_lost:
  "build_chunks default_config estimate_tokens [short_fenced_section, long_fenced_section] =
     [\<lparr>chunk_content = heading_chunk_text, sections = [''B''], token_count = 1\<rparr>,
      \<lparr>chunk_content = continued_text, sections = [''B''], token_count = 1339\<rparr>] \<and>
   sublist ''y'' (content short_fenced_section) \<and>
   \<not> sublist ''y'' heading_chunk_text \<and> \<not> sublist ''y'' continued_text"
  using two_fenced_build y_lost by (simp add: short_fields sublist_Cons_right)

subsection \<open>Small chunks\<close>

text \<open>
  C4 (small-chunk rule): a candidate whose \<open>token_count\<close> is below \<open>CHUNK_SIZE_MIN\<close> is
  accepted exactly when it is the only provisionally numbered chunk of its document or its
  text contains the fence marker; otherwise the validator answers "too small" and the chunk
  is not among the validated chunks. \<open>cs\<close> is the candidate list of a document and \<open>i\<close> a
  position in it; \<open>number_chunk (length cs) (i, cs ! i)\<close> is the candidate as
  \<open>create_chunks\<close> hands it to the validator.
\<close>

theorem small_chunk_rule:
  assumes "i < length cs" and "token_count (cs ! i) < CHUNK_SIZE_MIN cfg"
  shows "validate_chunk cfg (number_chunk (length cs) (i, cs ! i)) =
           (if length cs = 1 then (True, SingleChunk)
            else if sublist fence (chunk_content (cs ! i)) then (True, ImportantContent)
            else (False, TooSmall (token_count (cs ! i))))
         \<and> (number_chunk (length cs) (i, cs ! i) \<in> set (validated_chunks cfg cs) \<longleftrightarrow>
              length cs = 1 \<or> sublist fence (chunk_content (cs ! i)))"
proof -
  let ?c = "number_chunk (length cs) (i, cs ! i)"
  have t: "token_count ?c < CHUNK_SIZE_MIN cfg" "total_chunks ?c = length cs"
    "chunk_content ?c = strip (chunk_content (cs ! i))" "token_count ?c = token_count (cs ! i)"
    using assms by (simp_all add: number_chunk_def)
  have v: "validate_chunk cfg ?c =
           (if length cs = 1 then (True, SingleChunk)
            else if sublist fence (chunk_content (cs ! i)) then (True, ImportantContent)
            else (False, TooSmall (token_count (cs ! i))))"
    using validate_small [OF t(1)] by (simp add: t sublist_fence_strip)
  show ?thesis
    using v number_chunk_in_validated [OF assms(1), of cfg] by auto
qed

theorem small_chunk_rule_witness:
  "1 < length two_candidates \<and>
   token_count (two_candidates ! 1) < CHUNK_SIZE_MIN default_config \<and>
   validate_chunk default_config (number_chunk (length two_candidates) (1, two_candidates ! 1)) =
     (False, TooSmall 10) \<and>
   number_chunk (length two_candidates) (1, two_candidates ! 1)
     \<notin> set (validated_chunks default_config two_candidates)"
proof -
  have h1: "1 < length two_candidates" by (simp add: two_candidates_def)
  have h2: "token_count (two_candidates ! 1) < CHUNK_SIZE_MIN default_config"
    by (simp add: two_candidates_def cfg_fields)
  have h3: "length two_candidates \<noteq> 1" "\<not> sublist fence (chunk_content (two_candidates ! 1))"
    "token_count (two_candidates ! 1) = 10"
    by (simp_all add: two_candidates_def fence_def sublist_Cons_right)
  from small_chunk_rule [OF h1 h2] h1 h2 h3 show ?thesis by simp
qed

subsection \<open>Re-indexing\<close>

text \<open>
  C9 (re-indexing). \<open>cs\<close> are the candidates of a document, \<open>provisional\<close> the same
  candidates as the second loop of \<open>create_chunks\<close> hands them to the validator (text
  stripped, \<open>chunk_index\<close> from 1, \<open>total_chunks\<close> the number of candidates), and
  \<open>survivors\<close> those of them \<open>_validate_chunk\<close> accepts, in order. The chunks returned are
  exactly the survivors: as many as there are survivors, so that the returned and the
  rejected candidates together are all the candidates; chunk \<open>i\<close> (from 0) is survivor \<open>i\<close>
  with nothing changed but \<open>chunk_index\<close>, now \<open>i + 1\<close>, and \<open>total_chunks\<close>, now the number
  of chunks returned; every chunk returned was accepted; and the returned texts are a
  subsequence of the candidates' stripped texts (a rejected candidate is dropped, not
  repaired or merged). The witness is a document of two candidates of which the validator
  rejects the first: the second is returned alone, re-numbered from 2 of 2 to 1 of 1.
\<close>

theorem reindexing:
  assumes cs: "cs = build_chunks cfg est secs"
    and prov: "provisional =
      map (\<lambda>(i, c). \<lparr>chunk_content = strip (chunk_content c), sections = sections c,
                       token_count = token_count c, chunk_index = i + 1,
                       total_chunks = length cs, section_titles = sections c\<rparr>)
        (enumerate 0 cs)"
    and surv: "survivors = filter (\<lambda>c. fst (validate_chunk cfg c)) provisional"
    and out: "out = create_chunks cfg est secs"
  shows "length out = length survivors \<and>
         length out + length (filter (\<lambda>c. \<not> fst (validate_chunk cfg c)) provisional) =
           length cs \<and>
         (\<forall>i < length out.
            out ! i = (survivors ! i)\<lparr>chunk_index := i + 1, total_chunks := length out\<rparr> \<and>
            chunk_index (out ! i) = i + 1 \<and> total_chunks (out ! i) = length out \<and>
            fst (validate_chunk cfg (survivors ! i))) \<and>
         subseq (map chunk_content out) (map (\<lambda>c. strip (chunk_content c)) cs)"
proof -
  have v: "validated_chunks cfg cs = survivors"
    unfolding surv prov by (rule validated_chunks_alt)
  have o: "out = reindex survivors"
    unfolding out create_chunks_def cs [symmetric] v ..
  have len: "length out = length survivors" by (simp add: o reindex_length)
  have "length provisional = length cs" by (simp add: prov)
  then have cnt: "length out + length (filter (\<lambda>c. \<not> fst (validate_chunk cfg c)) provisional) =
      length cs"
    using sum_length_filter_compl [of "\<lambda>c. fst (validate_chunk cfg c)" provisional]
    by (simp add: len surv)
  have nth: "\<forall>i < length out.
            out ! i = (survivors ! i)\<lparr>chunk_index := i + 1, total_chunks := length out\<rparr> \<and>
            chunk_index (out ! i) = i + 1 \<and> total_chunks (out ! i) = length out \<and>
            fst (validate_chunk cfg (survivors ! i))"
  proof (intro allI impI)
    fix i assume i: "i < length out"
    then have isv: "i < length survivors" by (simp add: len)
    then have "survivors ! i \<in> set survivors" by (rule nth_mem)
    then have a: "fst (validate_chunk cfg (survivors ! i))" by (simp add: surv)
    from isv have "out ! i = (survivors ! i)\<lparr>chunk_index := i + 1, total_chunks := length out\<rparr>"
      by (simp add: o reindex_nth reindex_length)
    with a show "out ! i = (survivors ! i)\<lparr>chunk_index := i + 1, total_chunks := length out\<rparr> \<and>
            chunk_index (out ! i) = i + 1 \<and> total_chunks (out ! i) = length out \<and>
            fst (validate_chunk cfg (survivors ! i))"
      by simp
  qed
  have sub: "subseq (map chunk_content out) (map (\<lambda>c. strip (chunk_content c)) cs)"
    unfolding out cs by (rule survivors_subseq)
  from len cnt nth sub show ?thesis by blast
qed

theorem reindexing_witness:
  "build_chunks default_config estimate_tokens two_small_sections =
     [\<lparr>chunk_content = small_plain_text, sections = [''A''], token_count = 3\<rparr>,
      \<lparr>chunk_content = small_fenced_text, sections = [''B''], token_count = 4\<rparr>] \<and>
   validate_chunk default_config
     \<lparr>chunk_content = small_plain_text, sections = [''A''], token_count = 3, chunk_index = 1,
      total_chunks = 2, section_titles = [''A'']\<rparr> = (False, TooSmall 3) \<and>
   validate_chunk default_config
     \<lparr>chunk_content = small_fenced_text, sections = [''B''], token_count = 4, chunk_index = 2,
      total_chunks = 2, section_titles = [''B'']\<rparr> = (True, ImportantContent) \<and>
   create_chunks default_config estimate_tokens two_small_sections =
     [\<lparr>chunk_content = small_fenced_text, sections = [''B''], token_count = 4, chunk_index = 1,
       total_chunks = 1, section_titles = [''B'']\<rparr>]"
proof -
  let ?a = "\<lparr>chunk_content = small_plain_text, sections = [''A''], token_count = 3,
      chunk_index = 1, total_chunks = 2, section_titles = [''A'']\<rparr>"
  let ?b = "\<lparr>chunk_content = small_fenced_text, sections = [''B''], token_count = 4,
      chunk_index = 2, total_chunks = 2, section_titles = [''B'']\<rparr>"
  let ?out = "create_chunks default_config estimate_tokens two_small_sections"
  have va: "validate_chunk default_config ?a = (False, TooSmall 3)"
    by (simp add: validate_chunk_def cfg_fields small_texts_fence)
  have vb: "validate_chunk default_config ?b = (True, ImportantContent)"
    by (simp add: validate_chunk_def cfg_fields small_texts_fence)
  have s: "filter (\<lambda>c. fst (validate_chunk default_config c))
       (map (\<lambda>(i, c). \<lparr>chunk_content = strip (chunk_content c), sections = sections c,
                         token_count = token_count c, chunk_index = i + 1,
                         total_chunks = length (build_chunks default_config estimate_tokens
                           two_small_sections),
                         section_titles = sections c\<rparr>)
          (enumerate 0 (build_chunks default_config estimate_tokens two_small_sections))) = [?b]"
    by (simp add: two_small_build small_texts_strip validate_chunk_def cfg_fields
        small_texts_fence)
  from reindexing [OF refl refl refl refl, of default_config estimate_tokens two_small_sections]
  have len: "length ?out = 1"
    and nth: "\<forall>i < length ?out. ?out ! i = ([?b] ! i)\<lparr>chunk_index := i + 1, total_chunks := length ?out\<rparr>"
    unfolding s by simp_all
  from len nth have "?out ! 0 = ?b\<lparr>chunk_index := 1, total_chunks := 1\<rparr>" by simp
  with len have "?out = [?b\<lparr>chunk_index := 1, total_chunks := 1\<rparr>]"
    by (cases ?out) simp_all
  with two_small_build va vb show ?thesis by simp
qed

subsection \<open>Oversized chunks\<close>

text \<open>
  C10 (too large): with \<open>CHUNK_SIZE_MIN \<le> CHUNK_SIZE_MAX\<close>, as in both shipped
  configurations, the validator rejects every chunk whose \<open>token_count\<close> exceeds
  \<open>CHUNK_SIZE_MAX\<close>, whatever its \<open>total_chunks\<close> and text; so a document whose only
  candidate is oversized yields no chunk at all. The witness is the document that is one
  fenced block of 5000 characters: its only candidate holds the whole block, counts 1341
  tokens and is rejected.
\<close>

theorem oversized_rejected:
  assumes "CHUNK_SIZE_MIN cfg \<le> CHUNK_SIZE_MAX cfg"
  shows "(token_count c > CHUNK_SIZE_MAX cfg \<longrightarrow>
            validate_chunk cfg c = (False, TooLarge (token_count c))) \<and>
         (build_chunks cfg est secs = [k] \<and> token_count k > CHUNK_SIZE_MAX cfg \<longrightarrow>
            create_chunks cfg est secs = [])"
proof (intro conjI impI)
  assume "token_count c > CHUNK_SIZE_MAX cfg"
  with assms show "validate_chunk cfg c = (False, TooLarge (token_count c))"
    by (rule validate_large)
next
  assume a: "build_chunks cfg est secs = [k] \<and> token_count k > CHUNK_SIZE_MAX cfg"
  then have "token_count (number_chunk 1 (0, k)) > CHUNK_SIZE_MAX cfg"
    by (simp add: number_chunk_def)
  with assms have "\<not> fst (validate_chunk cfg (number_chunk 1 (0, k)))"
    by (simp add: validate_large)
  with a show "create_chunks cfg est secs = []"
    by (simp add: create_chunks_def validated_chunks_def reindex_def)
qed

theorem oversized_rejected_witness:
  "CHUNK_SIZE_MIN default_config \<le> CHUNK_SIZE_MAX default_config \<and>
   build_chunks default_config estimate_tokens [fenced_only_section] =
     [\<lparr>chunk_content = fenced_only_text, sections = [''Content''], token_count = 1341\<rparr>] \<and>
   sublist (content fenced_only_section) fenced_only_text \<and>
   validate_chunk default_config
     (number_chunk 1 (0, \<lparr>chunk_content = fenced_only_text, sections = [''Content''],
                          token_count = 1341\<rparr>)) = (False, TooLarge 1341) \<and>
   create_chunks default_config estimate_tokens [fenced_only_section] = []"
proof -
  let ?k = "\<lparr>chunk_content = fenced_only_text, sections = [''Content''], token_count = 1341\<rparr>"
  have h: "CHUNK_SIZE_MIN default_config \<le> CHUNK_SIZE_MAX default_config"
    by (simp add: cfg_fields)
  have t: "token_count (number_chunk 1 (0, ?k)) = 1341" "token_count ?k = 1341"
    "CHUNK_SIZE_MAX default_config < 1341"
    by (simp_all add: number_chunk_def cfg_fields)
  have "fenced_only_text =
          (''# Content (continued)'' @ [CHR 0x0A, CHR 0x0A]) @ content fenced_only_section"
    by (simp add: fenced_only_fields fenced_only_text_def)
  then have s: "sublist (content fenced_only_section) fenced_only_text"
    using sublist_append_leftI [of "content fenced_only_section"
        "''# Content (continued)'' @ [CHR 0x0A, CHR 0x0A]"] by metis
  from oversized_rejected [OF h, of "number_chunk 1 (0, ?k)" estimate_tokens
      "[fenced_only_section]" ?k] fenced_only_build h t s
  show ?thesis by simp
qed

subsection \<open>An oversized single section\<close>

text \<open>
  C5 (paragraph fallback): a group of one section whose body exceeds \<open>CHUNK_SIZE_MAX\<close>
  should be split at blank lines. \<open>_split_large_group\<close> of \<open>rag_processor.py\<close> has no
  paragraph splitting: on \<open>two_paragraph_section\<close> (two paragraphs of 3100 characters, 1653
  estimated tokens) it builds one candidate holding both paragraphs, which the validator
  then rejects as too large, so the document yields nothing. The older
  \<open>GK8RagProcessor.create_chunks\<close> does split the same section at the blank line, into one
  chunk per paragraph.
\<close>

theorem single_section_not_split_by_paragraph:
  "estimate_tokens (content two_paragraph_section) = 1653 \<and>
   CHUNK_SIZE_MAX default_config = 1200 \<and>
   build_chunks default_config estimate_tokens [two_paragraph_section] =
     [\<lparr>chunk_content = two_paragraph_text, sections = [''Content''], token_count = 1653\<rparr>] \<and>
   create_chunks default_config estimate_tokens [two_paragraph_section] = [] \<and>
   gk8_estimate_tokens (content two_paragraph_section) = 1550 \<and>
   CHUNK_SIZE_MAX gk8_config = 1500 \<and>
   gk8_split_section gk8_config gk8_estimate_tokens two_paragraph_section =
     [\<lparr>chunk_content = gk8_first_text, sections = [''Content''], token_count = 775\<rparr>,
      \<lparr>chunk_content = gk8_second_text, sections = [''Content''], token_count = 778\<rparr>]"
proof -
  have "CHUNK_SIZE_MAX gk8_config = 1500" by (simp add: gk8_config_def)
  then show ?thesis
    by (simp add: two_paragraph_fields two_paragraph_tokens cfg_fields two_paragraph_build
        two_paragraph_create gk8_two_paragraph_tokens gk8_two_paragraph)
qed

subsection \<open>Configuration\<close>

text \<open>
  C8 (configuration errors), as stated: a configuration with \<open>MIN \<ge> TARGET\<close> is refused
  with a fatal error, and the four constants are the caller's. Neither holds:
  \<open>GK8RagProcessor(chunk_size_target=100)\<close> is constructed with \<open>MIN = 300 \<ge> TARGET = 100\<close>,
  and \<open>RagProcessor(chunk_size_target=100)\<close> has \<open>TARGET = 800\<close>.
\<close>

theorem init_accepts_any_target:
  "GK8RagProcessor_init 100 \<noteq> Inl ConfigurationError \<and>
   CHUNK_SIZE_MIN (projr (GK8RagProcessor_init 100)) \<ge>
     CHUNK_SIZE_TARGET (projr (GK8RagProcessor_init 100)) \<and>
   RagProcessor_init 100 \<noteq> Inl ConfigurationError \<and>
   CHUNK_SIZE_TARGET (projr (RagProcessor_init 100)) \<noteq> 100"
  by (simp add: GK8RagProcessor_init_def RagProcessor_init_def)

text \<open>
  C8, amended: the constructors validate nothing and raise no configuration error.
  \<open>RagProcessor\<close> fixes the four constants at 500, 800, 1200 and 150 whatever the caller
  passes (these satisfy \<open>0 < MIN < TARGET < MAX\<close> and \<open>0 < OVERLAP\<close>); \<open>GK8RagProcessor\<close>
  fixes 300, 1500 and 100 and takes \<open>CHUNK_SIZE_TARGET\<close> from the caller as it is.
\<close>

theorem init_never_raises:
  "RagProcessor_init t = Inr default_config \<and>
   0 < CHUNK_SIZE_MIN default_config \<and>
   CHUNK_SIZE_MIN default_config < CHUNK_SIZE_TARGET default_config \<and>
   CHUNK_SIZE_TARGET default_config < CHUNK_SIZE_MAX default_config \<and>
   0 < CHUNK_OVERLAP default_config \<and>
   GK8RagProcessor_init t =
     Inr \<lparr>CHUNK_SIZE_MIN = 300, CHUNK_SIZE_TARGET = t, CHUNK_SIZE_MAX = 1500,
          CHUNK_OVERLAP = 100\<rparr>"
  by (simp add: GK8RagProcessor_init_def RagProcessor_init_def default_config_def)

subsection \<open>Grouping\<close>

text \<open>What the grouping loop returns, from any point of its run: the groups already closed,
  the group being built and the sections still to come, laid end to end.\<close>

lemma concat_group_loop:
  "concat (group_loop prev ss groups cur) = concat groups @ cur @ ss"
  by (induction ss arbitrary: prev groups cur) auto

lemma nonempty_group_loop:
  "[] \<notin> set groups \<Longrightarrow> [] \<notin> set (group_loop prev ss groups cur)"
  by (induction ss arbitrary: prev groups cur) auto

lemma starts_from_snoc:
  "starts_from n (gs @ [g]) = starts_from n gs @ [n + length (concat gs)]"
  by (induction gs arbitrary: n) auto

lemma starts_from_nth:
  "k < length gs \<Longrightarrow> starts_from n gs ! k = n + length (concat (take k gs))"
proof (induction gs arbitrary: n k)
  case Nil
  then show ?case by simp
next
  case (Cons g gs)
  then show ?case by (cases k) auto
qed

lemma length_starts_from: "length (starts_from n gs) = length gs"
  by (induction gs arbitrary: n) auto

lemma prev_of_Cons_Suc: "prev_of prev (s # ss) (Suc j) = prev_of (Some s) ss j"
  by (cases j) (auto simp: prev_of_def)

text \<open>Where the groups start, from any point of the run: where the closed groups start, where
  the group being built starts, and at every later section that is a major boundary.\<close>

lemma starts_group_loop:
  "i \<in> set (starts_from 0 (group_loop prev ss groups cur)) \<longleftrightarrow>
     i \<in> set (starts_from 0 groups) \<or>
     (i = length (concat groups) \<and> cur @ ss \<noteq> []) \<or>
     (\<exists>j < length ss. i = length (concat groups) + length cur + j \<and> (cur \<noteq> [] \<or> 0 < j) \<and>
         is_major_boundary (ss ! j) (prev_of prev ss j))"
proof (induction ss arbitrary: prev groups cur)
  case Nil
  show ?case by (auto simp: starts_from_snoc)
next
  case (Cons s ss)
  define L where "L = length (concat groups)"
  define Q where "Q n \<longleftrightarrow> (\<exists>j < length ss. i = n + Suc j \<and>
         is_major_boundary (ss ! j) (prev_of (Some s) ss j))" for n
  have rhs: "(\<exists>j < length (s # ss). i = n + j \<and> (c \<or> 0 < j) \<and>
         is_major_boundary ((s # ss) ! j) (prev_of prev (s # ss) j)) \<longleftrightarrow>
       (c \<and> i = n \<and> is_major_boundary s prev) \<or> Q n" for n c
  proof -
    have "prev_of prev (s # ss) 0 = prev" by (simp add: prev_of_def)
    then show ?thesis
      unfolding length_Cons Ex_less_Suc2 prev_of_Cons_Suc Q_def by simp blast
  qed
  have ih: "i \<in> set (starts_from 0 (group_loop (Some s) ss g c)) \<longleftrightarrow>
     i \<in> set (starts_from 0 g) \<or> i = length (concat g) \<or> Q (length (concat g) + length c - 1)"
    if "c \<noteq> []" for g c
  proof -
    from that have eq: "Suc (length (concat g) + length c - Suc 0 + j) =
        length (concat g) + length c + j" for j
      by (cases c) simp_all
    show ?thesis
      unfolding Cons.IH [of "Some s" g c] Q_def using that by (simp add: eq)
  qed
  have goal: "?case \<longleftrightarrow>
     (i \<in> set (starts_from 0 (group_loop prev (s # ss) groups cur)) \<longleftrightarrow>
      i \<in> set (starts_from 0 groups) \<or> i = L \<or>
      (cur \<noteq> [] \<and> i = L + length cur \<and> is_major_boundary s prev) \<or> Q (L + length cur))"
    unfolding rhs L_def by simp
  show ?case
  proof (cases "is_major_boundary s prev")
    case b: True
    show ?thesis
    proof (cases "cur = []")
      case True
      with b have "group_loop prev (s # ss) groups cur = group_loop (Some s) ss groups [s]"
        by simp
      with True show ?thesis
        unfolding goal by (simp add: ih L_def)
    next
      case False
      with b have "group_loop prev (s # ss) groups cur =
          group_loop (Some s) ss (groups @ [cur]) [s]"
        by simp
      with False b show ?thesis
        unfolding goal by (simp add: ih L_def starts_from_snoc) blast
    qed
  next
    case False
    then have "group_loop prev (s # ss) groups cur = group_loop (Some s) ss groups (cur @ [s])"
      by simp
    with False show ?thesis
      unfolding goal by (simp add: ih L_def)
  qed
qed

text \<open>
  C3 (group boundary rule): the groups, concatenated, are the section sequence (no gap, no
  overlap, order kept) and none is empty; for \<open>0 < i < length secs\<close> a group starts at
  section \<open>i\<close> exactly when \<open>_is_major_boundary(secs[i], secs[i-1])\<close> holds; and that
  predicate is true when the section's level is at most 2, otherwise true exactly when one
  of the two contents has the fence marker and the other has not, otherwise false.
\<close>

theorem group_boundary_rule:
  "concat (group_related_sections secs) = secs \<and>
   [] \<notin> set (group_related_sections secs) \<and>
   (\<forall>i. 0 < i \<and> i < length secs \<longrightarrow>
      (i \<in> set (group_starts (group_related_sections secs)) \<longleftrightarrow>
       is_major_boundary (secs ! i) (Some (secs ! (i - 1))))) \<and>
   (\<forall>cur prv. is_major_boundary cur (Some prv) =
      (if level cur \<le> 2 then True
       else if sublist fence (content prv) \<noteq> sublist fence (content cur) then True
       else False))"
proof (intro conjI allI impI)
  show "concat (group_related_sections secs) = secs"
    by (simp add: group_related_sections_def concat_group_loop)
  show "[] \<notin> set (group_related_sections secs)"
    by (simp add: group_related_sections_def nonempty_group_loop)
next
  fix i assume i: "0 < i \<and> i < length secs"
  then show "i \<in> set (group_starts (group_related_sections secs)) \<longleftrightarrow>
       is_major_boundary (secs ! i) (Some (secs ! (i - 1)))"
    unfolding group_starts_def group_related_sections_def starts_group_loop
    by (auto simp: prev_of_def)
next
  fix cur prv
  show "is_major_boundary cur (Some prv) =
      (if level cur \<le> 2 then True
       else if sublist fence (content prv) \<noteq> sublist fence (content cur) then True
       else False)"
    by (simp add: is_major_boundary_def)
qed

theorem group_boundary_rule_witness:
  "0 < (2::nat) \<and> 2 < length three_sections \<and>
   concat (group_related_sections three_sections) = three_sections \<and>
   2 \<in> set (group_starts (group_related_sections three_sections)) \<and>
   is_major_boundary (three_sections ! 2) (Some (three_sections ! 1)) \<and>
   1 \<notin> set (group_starts (group_related_sections three_sections)) \<and>
   \<not> is_major_boundary (three_sections ! 1) (Some (three_sections ! 0))"
proof -
  have len: "length three_sections = 3" by (simp add: three_sections_def)
  have b2: "is_major_boundary (three_sections ! 2) (Some (three_sections ! 1))"
    by (simp add: three_sections_def is_major_boundary_def fence_def sublist_Cons_right)
  have b1: "\<not> is_major_boundary (three_sections ! 1) (Some (three_sections ! 0))"
    by (simp add: three_sections_def is_major_boundary_def fence_def sublist_Cons_right)
  from group_boundary_rule [of three_sections]
  have c: "concat (group_related_sections three_sections) = three_sections"
    and r: "\<forall>i. 0 < i \<and> i < length three_sections \<longrightarrow>
      (i \<in> set (group_starts (group_related_sections three_sections)) \<longleftrightarrow>
       is_major_boundary (three_sections ! i) (Some (three_sections ! (i - 1))))"
    by blast+
  from r [rule_format, of 2] r [rule_format, of 1] len b1 b2 c show ?thesis by simp
qed

subsection \<open>Overlap\<close>

text \<open>Splitting into words undoes joining with single spaces.\<close>

lemma split_ws_aux_good:
  "\<forall>c\<in>set w. \<not> is_space c \<Longrightarrow> \<forall>x\<in>set (split_ws_aux w s). good_word x"
proof (induction s arbitrary: w)
  case Nil
  then show ?case by (simp add: good_word_def)
next
  case (Cons a s)
  have e: "\<forall>x\<in>set (split_ws_aux [] s). good_word x"
    by (rule Cons.IH) simp
  show ?case
  proof (cases "is_space a")
    case True
    with e Cons.prems show ?thesis by (simp add: good_word_def)
  next
    case False
    with Cons.prems have "\<forall>c\<in>set (a # w). \<not> is_space c" by simp
    then have "\<forall>x\<in>set (split_ws_aux (a # w) s). good_word x" by (rule Cons.IH)
    with False show ?thesis by simp
  qed
qed

lemma split_ws_good: "\<forall>x\<in>set (split_ws s). good_word x"
  using split_ws_aux_good [of "[]" s] by (simp add: split_ws_def)

lemma split_ws_aux_nospace:
  "\<forall>c\<in>set u. \<not> is_space c \<Longrightarrow> split_ws_aux w (u @ s) = split_ws_aux (rev u @ w) s"
  by (induction u arbitrary: w) auto

lemma split_ws_aux_join:
  "\<forall>x\<in>set ws. good_word x \<Longrightarrow>
   split_ws_aux w (join_sp ws) =
     (case ws of [] \<Rightarrow> (if w = [] then [] else [rev w]) | x # xs \<Rightarrow> (rev w @ x) # xs)"
proof (induction ws arbitrary: w rule: join_sp.induct)
  case 1
  then show ?case by simp
next
  case (2 x)
  then have x: "\<forall>c\<in>set x. \<not> is_space c" "x \<noteq> []" by (simp_all add: good_word_def)
  have "split_ws_aux w (x @ []) = split_ws_aux (rev x @ w) []"
    using x(1) by (rule split_ws_aux_nospace)
  with x(2) show ?case by simp
next
  case (3 x v ws)
  then have x: "\<forall>c\<in>set x. \<not> is_space c" "x \<noteq> []" by (simp_all add: good_word_def)
  from 3 have ih: "split_ws_aux [] (join_sp (v # ws)) = v # ws" by simp
  have "split_ws_aux w (x @ CHR '' '' # join_sp (v # ws)) =
        split_ws_aux (rev x @ w) (CHR '' '' # join_sp (v # ws))"
    using x(1) by (rule split_ws_aux_nospace)
  also have "\<dots> = (rev w @ x) # split_ws_aux [] (join_sp (v # ws))"
    using x(2) by (simp add: is_space_def whitespace_def)
  finally show ?case by (simp add: ih)
qed

lemma split_ws_join: "\<forall>x\<in>set ws. good_word x \<Longrightarrow> split_ws (join_sp ws) = ws"
  by (simp add: split_ws_def split_ws_aux_join split: list.splits)

lemma split_ws_join_drop: "split_ws (join_sp (drop k (split_ws s))) = drop k (split_ws s)"
proof (rule split_ws_join)
  show "\<forall>x\<in>set (drop k (split_ws s)). good_word x"
    using split_ws_good [of s] by (meson in_set_dropD)
qed

lemma words_abc: "split_ws ''a b c'' = [''a'', ''b'', ''c'']"
  by (simp add: split_ws_def is_space_def whitespace_def)

text \<open>
  C7 (overlap slice), as stated: for every positive \<open>CHUNK_OVERLAP\<close> the overlap is the last
  \<open>round(CHUNK_OVERLAP * 0.8)\<close> words. With \<open>CHUNK_OVERLAP = 2\<close> that is the last two
  words; the code computes \<open>2 * 4 // 5 = 1\<close> and carries one word.
\<close>

theorem overlap_not_rounded:
  "spec_overlap_words (CHUNK_OVERLAP overlap_two_config) = 2 \<and>
   CHUNK_OVERLAP overlap_two_config * 4 div 5 = 1 \<and>
   split_ws (get_overlap_content overlap_two_config ''a b c'') = [''c''] \<and>
   drop (length (split_ws ''a b c'') - nat (spec_overlap_words (CHUNK_OVERLAP overlap_two_config)))
     (split_ws ''a b c'') = [''b'', ''c'']"
  by (simp add: spec_overlap_words_def overlap_two_config_def get_overlap_content_def words_abc
      slice_from_neg_def) (simp add: split_ws_def is_space_def whitespace_def)

text \<open>
  C7, amended: the count is \<open>CHUNK_OVERLAP * 4 // 5\<close>, rounded down. When that is at least 1,
  the words of the overlap are the last \<open>CHUNK_OVERLAP * 4 // 5\<close> words of the previous
  buffer, a trailing run of its word sequence; the overlap is those words joined by single
  spaces when the buffer has more words than that, and the whole buffer text, unchanged,
  when it has that many or fewer.
\<close>

theorem overlap_slice:
  assumes "1 \<le> CHUNK_OVERLAP cfg * 4 div 5"
  shows "split_ws (get_overlap_content cfg text) =
           drop (length (split_ws text) - nat (CHUNK_OVERLAP cfg * 4 div 5)) (split_ws text) \<and>
         length (split_ws (get_overlap_content cfg text)) =
           min (length (split_ws text)) (nat (CHUNK_OVERLAP cfg * 4 div 5)) \<and>
         get_overlap_content cfg text =
           (if int (length (split_ws text)) > CHUNK_OVERLAP cfg * 4 div 5
            then join_sp (drop (length (split_ws text) - nat (CHUNK_OVERLAP cfg * 4 div 5))
                            (split_ws text))
            else text)"
proof -
  define n where "n = CHUNK_OVERLAP cfg * 4 div 5"
  define ws where "ws = split_ws text"
  have n: "1 \<le> n" using assms by (simp add: n_def)
  have k: "nat (int (length ws) - n) = length ws - nat n" using n by simp
  have g: "get_overlap_content cfg text =
           (if int (length ws) > n then join_sp (drop (length ws - nat n) ws) else text)"
    using n by (simp add: get_overlap_content_def slice_from_neg_def n_def [symmetric]
        ws_def [symmetric] k Let_def)
  have w: "split_ws (get_overlap_content cfg text) = drop (length ws - nat n) ws"
  proof (cases "int (length ws) > n")
    case True
    then show ?thesis by (simp add: g ws_def split_ws_join_drop)
  next
    case False
    then have "length ws - nat n = 0" by simp
    with False show ?thesis by (simp add: g ws_def)
  qed
  have l: "length (split_ws (get_overlap_content cfg text)) = min (length ws) (nat n)"
    unfolding w by simp
  from w l g show ?thesis by (simp add: n_def ws_def)
qed

theorem overlap_slice_witness:
  "1 \<le> CHUNK_OVERLAP overlap_two_config * 4 div 5 \<and>
   split_ws (get_overlap_content overlap_two_config ''a b c'') = [''c''] \<and>
   get_overlap_content overlap_two_config ''a b c'' = ''c''"
proof -
  have h: "1 \<le> CHUNK_OVERLAP overlap_two_config * 4 div 5"
    by (simp add: overlap_two_config_def)
  have n: "CHUNK_OVERLAP overlap_two_config * 4 div 5 = 1"
    by (simp add: overlap_two_config_def)
  have c: "split_ws ''c'' = [''c'']"
    by (simp add: split_ws_def is_space_def whitespace_def)
  from overlap_slice [OF h, of "''a b c''"] show ?thesis
    by (simp add: n words_abc c)
qed

text \<open>For both shipped values of \<open>CHUNK_OVERLAP\<close>, 150 and 100, rounding down and rounding to
  the nearest integer agree.\<close>

lemma shipped_overlap_agrees:
  "spec_overlap_words (CHUNK_OVERLAP default_config) = CHUNK_OVERLAP default_config * 4 div 5"
  "spec_overlap_words (CHUNK_OVERLAP gk8_config) = CHUNK_OVERLAP gk8_config * 4 div 5"
  by (simp_all add: spec_overlap_words_def default_config_def gk8_config_def)

subsection \<open>Code fences\<close>

text \<open>Each step of the fenced branch keeps what the state holds, as long as the piece held
  starts and ends with a non-whitespace character, and a block step adds its block.\<close>

lemma solid_block: "solid (fence @ part @ fence)"
  by (simp add: solid_def fence_def not_space_backtick)

lemma sublist_strip_solid: "solid b \<Longrightarrow> sublist b (strip s) \<longleftrightarrow> sublist b s"
  unfolding solid_def by (intro sublist_strip_iff) simp_all

lemma strip_nonempty_solid: "solid b \<Longrightarrow> sublist b s \<Longrightarrow> strip s \<noteq> []"
proof
  assume a: "solid b" "sublist b s" "strip s = []"
  from a(1,2) have "sublist b (strip s)" by (simp only: sublist_strip_solid)
  with a(3) have "b = []" by simp
  with a(1) show False by (simp add: solid_def)
qed

lemma sublist_app_right: "sublist b s \<Longrightarrow> sublist b (s @ t)"
  by (metis sublist_append_rightI sublist_order.order_trans)

lemma code_block_step_content:
  "current_chunk_content (code_block_step cfg est ttl part st) =
     (if current_tokens st + est (fence @ part @ fence) > CHUNK_SIZE_MAX cfg
      then ''# '' @ ttl @ '' (continued)'' @ [CHR 0x0A, CHR 0x0A] @ fence @ part @ fence
      else current_chunk_content st @ [CHR 0x0A, CHR 0x0A] @ fence @ part @ fence)"
  by (simp add: code_block_step_def Let_def)

lemma code_block_step_chunks:
  "chunks (code_block_step cfg est ttl part st) =
     (if current_tokens st + est (fence @ part @ fence) > CHUNK_SIZE_MAX cfg \<and>
         strip (current_chunk_content st) \<noteq> []
      then chunks st @ [buffer_chunk st] else chunks st)"
  by (simp add: code_block_step_def Let_def)

lemma code_block_step_adds: "held (fence @ part @ fence) (code_block_step cfg est ttl part st)"
proof -
  have "suffix (fence @ part @ fence) (current_chunk_content (code_block_step cfg est ttl part st))"
    unfolding code_block_step_content suffix_def by (simp; metis append.assoc)
  then show ?thesis unfolding held_def by (auto simp: suffix_imp_sublist)
qed

lemma code_block_step_keeps:
  assumes "solid b" "held b st"
  shows "held b (code_block_step cfg est ttl part st)"
proof (cases "current_tokens st + est (fence @ part @ fence) > CHUNK_SIZE_MAX cfg")
  case over: True
  from assms(2) show ?thesis
    unfolding held_def
  proof
    assume in_buf: "sublist b (current_chunk_content st)"
    with assms(1) have ne: "strip (current_chunk_content st) \<noteq> []"
      by (rule strip_nonempty_solid)
    from in_buf assms(1) have "sublist b (chunk_content (buffer_chunk st))"
      by (simp add: buffer_chunk_def sublist_strip_solid)
    with over ne show "sublist b (current_chunk_content (code_block_step cfg est ttl part st)) \<or>
        (\<exists>c\<in>set (chunks (code_block_step cfg est ttl part st)). sublist b (chunk_content c))"
      by (simp add: code_block_step_chunks)
  next
    assume "\<exists>c\<in>set (chunks st). sublist b (chunk_content c)"
    then show "sublist b (current_chunk_content (code_block_step cfg est ttl part st)) \<or>
        (\<exists>c\<in>set (chunks (code_block_step cfg est ttl part st)). sublist b (chunk_content c))"
      by (auto simp: code_block_step_chunks)
  qed
next
  case False
  with assms(2) show ?thesis
    unfolding held_def code_block_step_content code_block_step_chunks
    by (auto intro: sublist_app_right)
qed

lemma text_after_step_keeps: "held b st \<Longrightarrow> held b (text_after_step cfg est t st)"
  unfolding held_def text_after_step_def by (auto simp: Let_def intro: sublist_app_right)

lemma process_code_blocks_keeps:
  "solid b \<Longrightarrow> held b st \<Longrightarrow> held b (process_code_blocks cfg est ttl parts st)"
  by (induction cfg est ttl parts st rule: process_code_blocks.induct)
     (simp_all add: code_block_step_keeps text_after_step_keeps)

lemma process_code_blocks_holds:
  "b \<in> set (code_blocks parts) \<Longrightarrow> held b (process_code_blocks cfg est ttl parts st)"
proof (induction cfg est ttl parts st rule: process_code_blocks.induct)
  case (1 cfg est ttl st)
  then show ?case by simp
next
  case (2 cfg est ttl part st)
  then show ?case by (simp add: code_block_step_adds)
next
  case (3 cfg est ttl part text_after rest st)
  show ?case
  proof (cases "b = fence @ part @ fence")
    case True
    have "held b (text_after_step cfg est text_after (code_block_step cfg est ttl part st))"
      unfolding True by (intro text_after_step_keeps code_block_step_adds)
    moreover have "solid b" unfolding True by (rule solid_block)
    ultimately show ?thesis by (simp add: process_code_blocks_keeps)
  next
    case False
    with 3 show ?thesis by simp
  qed
qed

lemma code_section_step_holds:
  "b \<in> set (fenced_blocks (content s)) \<Longrightarrow> held b (code_section_step cfg est st s)"
  by (simp add: code_section_step_def fenced_blocks_def process_code_blocks_holds)

lemma code_blocks_solid: "b \<in> set (code_blocks parts) \<Longrightarrow> solid b"
  by (induction parts rule: code_blocks.induct) (auto simp: solid_block)

lemma held_final:
  assumes "solid b" "held b st"
  shows "\<exists>c\<in>set (if strip (current_chunk_content st) \<noteq> [] then chunks st @ [buffer_chunk st]
                   else chunks st). sublist b (chunk_content c)"
  using assms(2) unfolding held_def
proof
  assume in_buf: "sublist b (current_chunk_content st)"
  with assms(1) have "strip (current_chunk_content st) \<noteq> []" by (rule strip_nonempty_solid)
  moreover from in_buf assms(1) have "sublist b (chunk_content (buffer_chunk st))"
    by (simp add: buffer_chunk_def sublist_strip_solid)
  ultimately show ?thesis by simp
next
  assume "\<exists>c\<in>set (chunks st). sublist b (chunk_content c)"
  then show ?thesis by auto
qed

lemma last_fenced_section_blocks:
  assumes "sublist fence (content s)" "b \<in> set (fenced_blocks (content s))"
  shows "\<exists>c\<in>set (split_large_group cfg est (grp @ [s])). sublist b (chunk_content c)"
proof -
  let ?st = "foldl (split_step cfg est) init_state grp"
  have "foldl (split_step cfg est) init_state (grp @ [s]) = code_section_step cfg est ?st s"
    using assms(1) by (simp add: split_step_def)
  moreover have "held b (code_section_step cfg est ?st s)"
    using assms(2) by (rule code_section_step_holds)
  moreover have "solid b"
    using assms(2) unfolding fenced_blocks_def by (rule code_blocks_solid)
  ultimately have "\<exists>c\<in>set (if strip (current_chunk_content
          (foldl (split_step cfg est) init_state (grp @ [s]))) \<noteq> []
        then chunks (foldl (split_step cfg est) init_state (grp @ [s])) @
             [buffer_chunk (foldl (split_step cfg est) init_state (grp @ [s]))]
        else chunks (foldl (split_step cfg est) init_state (grp @ [s]))). sublist b (chunk_content c)"
    by (simp only: held_final)
  then show ?thesis
    unfolding split_large_group_def Let_def .
qed

text \<open>The validator's fence check is reached by every chunk that is not undersized.\<close>

lemma validated_even:
  assumes "fst (validate_chunk cfg c)" "token_count c \<ge> CHUNK_SIZE_MIN cfg"
  shows "even (count_fence (chunk_content c))"
proof (rule ccontr)
  assume "odd (count_fence (chunk_content c))"
  then have "count_fence (chunk_content c) mod 2 \<noteq> 0" by presburger
  with assms show False by (simp add: validate_chunk_def Let_def split: if_splits)
qed

lemma create_chunks_member:
  assumes "c \<in> set (create_chunks cfg est secs)"
  shows "\<exists>v\<in>set (validated_chunks cfg (build_chunks cfg est secs)).
           chunk_content c = chunk_content v \<and> token_count c = token_count v"
proof -
  from assms obtain i where i: "i < length (create_chunks cfg est secs)"
    "c = create_chunks cfg est secs ! i"
    by (auto simp: in_set_conv_nth)
  let ?vs = "validated_chunks cfg (build_chunks cfg est secs)"
  from i have "i < length ?vs" by (simp add: create_chunks_def reindex_length)
  moreover from this i have "chunk_content c = chunk_content (?vs ! i)"
    "token_count c = token_count (?vs ! i)"
    by (simp_all add: create_chunks_def reindex_nth)
  ultimately show ?thesis by (metis nth_mem)
qed

lemma output_even:
  assumes "c \<in> set (create_chunks cfg est secs)" "token_count c \<ge> CHUNK_SIZE_MIN cfg"
  shows "even (count_fence (chunk_content c))"
proof -
  from create_chunks_member [OF assms(1)] obtain v where
    v: "v \<in> set (validated_chunks cfg (build_chunks cfg est secs))"
       "chunk_content c = chunk_content v" "token_count c = token_count v"
    by blast
  from v(1) have "fst (validate_chunk cfg v)" by (simp add: validated_chunks_def)
  with assms(2) v show ?thesis by (simp add: validated_even)
qed

text \<open>The code on a section that is one fenced block of 2000 characters.\<close>

lemma count_fence_plain: "CHR ''`'' \<notin> set s \<Longrightarrow> count_fence s = 0"
  by (induction s rule: count_fence.induct) auto

lemma count_fence_append:
  "CHR ''`'' \<notin> set s \<Longrightarrow>
   count_fence (s @ CHR ''`'' # CHR ''`'' # CHR ''`'' # r) = Suc (count_fence r)"
proof (induction s)
  case Nil
  then show ?case by simp
next
  case (Cons a s)
  then have a: "a \<noteq> CHR ''`''" by auto
  show ?case using Cons a
    by (cases s; cases "tl s"; auto)
qed

lemma fenced_valid_fields:
  "title fenced_valid_section = ''Content''"
  "content fenced_valid_section = fenced_valid_text"
  by (simp_all add: fenced_valid_section_def)

lemma fenced_valid_strip: "strip fenced_valid_text = fenced_valid_text"
  by (rule strip_id) (simp_all add: is_space_def whitespace_def fenced_valid_text_def)

lemma fenced_valid_tokens:
  "estimate_tokens fenced_valid_text = 534"
  "estimate_tokens (CHR 0x0A # CHR 0x0A # fenced_valid_text) = 535"
  by (simp_all add: fenced_valid_text_def estimate_tokens_def)

lemma fenced_valid_build:
  "build_chunks default_config estimate_tokens [fenced_valid_section] =
     [\<lparr>chunk_content = fenced_valid_text, sections = [''Content''], token_count = 535\<rparr>]"
  by (simp add: build_single group_chunks_def fenced_valid_fields fenced_valid_tokens cfg_fields
      create_chunk_from_sections_def render_section_def strip_two_newlines fenced_valid_strip
      Let_def)

lemma fenced_valid_count: "count_fence fenced_valid_text = 2"
proof -
  have 1: "count_fence (replicate 2000 (CHR ''a'') @ CHR ''`'' # CHR ''`'' # CHR ''`'' # []) =
           Suc (count_fence [])"
    by (rule count_fence_append) simp
  have "count_fence fenced_valid_text =
        Suc (count_fence (replicate 2000 (CHR ''a'') @ CHR ''`'' # CHR ''`'' # CHR ''`'' # []))"
    by (simp add: fenced_valid_text_def)
  also note 1
  finally show ?thesis by simp
qed

lemma fenced_valid_no_orphan:
  "find (\<lambda>orphan. prefix orphan fenced_valid_text) orphaned_starts = None"
  by (simp add: orphaned_starts_def fenced_valid_text_def)

lemma fenced_valid_create:
  "create_chunks default_config estimate_tokens [fenced_valid_section] =
     [\<lparr>chunk_content = fenced_valid_text, sections = [''Content''], token_count = 535,
       chunk_index = 1, total_chunks = 1, section_titles = [''Content'']\<rparr>]"
  by (simp add: create_chunks_def fenced_valid_build validated_chunks_def number_chunk_def
      validate_chunk_def reindex_def cfg_fields fenced_valid_strip fenced_valid_count
      fenced_valid_no_orphan)

lemma fenced_only_blocks:
  "fenced_blocks (content fenced_only_section) = [content fenced_only_section]"
  by (simp add: fenced_blocks_def fenced_only_split) (simp add: fenced_only_fields fence_def)

text \<open>
  C2 (code-fence atomicity), as stated: no validated output chunk has an odd number of
  fence delimiters. The document whose only section has the content \<open>```x\<close> (a fence that is
  never closed) yields one validated chunk, with one delimiter: the chunk is undersized,
  and \<open>_validate_chunk\<close> accepts an undersized chunk that is the only one, or that holds a
  marker, before it reaches the fence check.
\<close>

theorem odd_fence_accepted:
  "map chunk_content (create_chunks default_config estimate_tokens [unclosed_fence_section]) =
     [''```x''] \<and>
   count_fence ''```x'' = 1"
  by (simp add: unclosed_fence_create)

text \<open>
  C2, amended. A fenced block is never cut: the splitter appends each block
  \<open>'```' + part + '```'\<close> to the running buffer whole, and when adding it would push the
  running total past \<open>CHUNK_SIZE_MAX\<close> the buffer, if not blank, is flushed first and the new
  buffer is \<open># <title> (continued)\<close>, a blank line and the entire block. Every block of the
  last fenced section of a group lies whole inside a chunk the splitter emits. And no
  validated output chunk whose \<open>token_count\<close> is at least \<open>CHUNK_SIZE_MIN\<close> has an odd number
  of fence delimiters.
\<close>

theorem fence_atomicity:
  "current_chunk_content (code_block_step cfg est ttl part st) =
     (if current_tokens st + est (fence @ part @ fence) > CHUNK_SIZE_MAX cfg
      then ''# '' @ ttl @ '' (continued)'' @ [CHR 0x0A, CHR 0x0A] @ fence @ part @ fence
      else current_chunk_content st @ [CHR 0x0A, CHR 0x0A] @ fence @ part @ fence) \<and>
   chunks (code_block_step cfg est ttl part st) =
     (if current_tokens st + est (fence @ part @ fence) > CHUNK_SIZE_MAX cfg \<and>
         strip (current_chunk_content st) \<noteq> []
      then chunks st @ [buffer_chunk st] else chunks st) \<and>
   (sublist fence (content s) \<longrightarrow>
      (\<forall>b\<in>set (fenced_blocks (content s)).
         \<exists>c\<in>set (split_large_group cfg est (grp @ [s])). sublist b (chunk_content c))) \<and>
   (\<forall>c\<in>set (create_chunks cfg est secs).
      token_count c \<ge> CHUNK_SIZE_MIN cfg \<longrightarrow> even (count_fence (chunk_content c)))"
  using code_block_step_content code_block_step_chunks last_fenced_section_blocks output_even
  by blast

theorem fence_atomicity_witness:
  "sublist fence (content fenced_only_section) \<and>
   content fenced_only_section \<in> set (fenced_blocks (content fenced_only_section)) \<and>
   (\<exists>c\<in>set (split_large_group default_config estimate_tokens [fenced_only_section]).
      sublist (content fenced_only_section) (chunk_content c)) \<and>
   create_chunks default_config estimate_tokens [fenced_valid_section] =
     [\<lparr>chunk_content = fenced_valid_text, sections = [''Content''], token_count = 535,
       chunk_index = 1, total_chunks = 1, section_titles = [''Content'']\<rparr>] \<and>
   CHUNK_SIZE_MIN default_config \<le> 535 \<and>
   even (count_fence fenced_valid_text)"
proof -
  note t = fence_atomicity [of default_config estimate_tokens "[]" "[]" init_state
      fenced_only_section "[]" "[fenced_valid_section]"]
  from t have a: "sublist fence (content fenced_only_section) \<longrightarrow>
      (\<forall>b\<in>set (fenced_blocks (content fenced_only_section)).
         \<exists>c\<in>set (split_large_group default_config estimate_tokens ([] @ [fenced_only_section])).
            sublist b (chunk_content c))"
    by blast
  from t have b: "\<forall>c\<in>set (create_chunks default_config estimate_tokens [fenced_valid_section]).
      token_count c \<ge> CHUNK_SIZE_MIN default_config \<longrightarrow> even (count_fence (chunk_content c))"
    by blast
  have m: "CHUNK_SIZE_MIN default_config \<le> 535" by (simp add: cfg_fields)
  from a fenced_only_fence fenced_only_blocks
  have 1: "\<exists>c\<in>set (split_large_group default_config estimate_tokens [fenced_only_section]).
      sublist (content fenced_only_section) (chunk_content c)"
    by simp
  from b m have 2: "even (count_fence fenced_valid_text)"
    by (simp add: fenced_valid_create)
  from 1 2 m fenced_only_fence fenced_only_blocks fenced_valid_create show ?thesis by simp
qed

subsection \<open>The stored token count\<close>

text \<open>
  C6 (token-count freshness), as stated: the stored count equals the estimate of the
  current text at every point. After the splitter has processed
  \<open>text_after_fence_section\<close> its buffer counts 1001 tokens and the estimate of the buffer's
  text is 1002; the candidate \<open>_create_chunk_from_sections\<close> builds for
  \<open>thirteen_char_section\<close> counts 4 tokens and the estimate of its text is 3.
\<close>

theorem token_count_drifts:
  "current_tokens (split_step default_config estimate_tokens init_state text_after_fence_section)
     = 1001 \<and>
   estimate_tokens (current_chunk_content
     (split_step default_config estimate_tokens init_state text_after_fence_section)) = 1002 \<and>
   token_count (hd (build_chunks default_config estimate_tokens [thirteen_char_section])) = 4 \<and>
   estimate_tokens (chunk_content
     (hd (build_chunks default_config estimate_tokens [thirteen_char_section]))) = 3"
  by (simp add: taf_step thirteen_char_build)
     (simp add: estimate_tokens_def text_after_fence_text_def)

text \<open>
  C6, amended: the count is recomputed from the whole text only where a buffer is started:
  the seed of a fenced section (header and text before the first fence), the
  \<open>(continued)\<close> buffer and the overlap-seeded buffer. Every append adds the estimate of
  the appended body, block or text alone, without the blank-line separator and the
  \<open># title\<close> header that are appended with it. A flushed chunk carries the running count
  next to the stripped text, and \<open>_create_chunk_from_sections\<close> stores the estimate of the
  text before it is stripped.
\<close>

theorem token_count_bookkeeping:
  "token_count (create_chunk_from_sections est secs) = est (concat (map render_section secs)) \<and>
   token_count (buffer_chunk st) = current_tokens st \<and>
   current_tokens (seed_code_section cfg est st s) =
     est (current_chunk_content (seed_code_section cfg est st s)) \<and>
   current_tokens (code_block_step cfg est ttl part st) =
     (if current_tokens st + est (fence @ part @ fence) > CHUNK_SIZE_MAX cfg
      then est (current_chunk_content (code_block_step cfg est ttl part st))
      else current_tokens st + est (fence @ part @ fence)) \<and>
   current_tokens (text_after_step cfg est text_after st) =
     (if current_tokens st + est text_after \<le> CHUNK_SIZE_MAX cfg
      then current_tokens st + est text_after else current_tokens st) \<and>
   current_tokens (text_section_step cfg est st s) =
     (if current_tokens st + est (content s) > CHUNK_SIZE_TARGET cfg \<and>
         current_tokens st \<ge> CHUNK_SIZE_MIN cfg
      then est (current_chunk_content (text_section_step cfg est st s))
      else current_tokens st + est (content s))"
  by (simp add: create_chunk_from_sections_def buffer_chunk_def seed_code_section_def
      code_block_step_def text_after_step_def text_section_step_def append_section_def Let_def)

end
